theory Spec2Isabelle
  imports Complex_Main
begin

section \<open>The e-mail ingestion pipeline of \<^verbatim>\<open>email-parser.py\<close>\<close>

text \<open>
  The script lists the messages of a mailbox, looks each one up in a record store, fetches
  it, sends its body to a classifier under a word budget and upserts the record. The
  three services (mailbox, store, classifier) are outside the program: what each call
  returns, or that it raises, is an input of the model. A run is a function of these
  inputs; it returns the counters the script prints and the list of the calls it made.

  Python's \<open>int\<close> is \<open>int\<close>, \<open>str\<close> is \<open>string\<close>, a raise is a value of \<open>exn\<close>, an
  object mutated in place is passed in and returned.
\<close>

subsection \<open>Exceptions and the outcome of an outside call\<close>

datatype exn =
    ZeroDivisionError
  | DecodeError
  | KeyError
  | IndexError
  | ServiceError

text \<open>
  \<open>DecodeError\<close> stands for what \<^verbatim>\<open>base64.urlsafe_b64decode(...).decode()\<close> raises
  (\<^verbatim>\<open>binascii.Error\<close>, \<^verbatim>\<open>UnicodeDecodeError\<close>), \<open>ServiceError\<close> for any exception
  of a client library. All of them are subclasses of \<^verbatim>\<open>Exception\<close>.
\<close>

datatype 'a call = Raises | Returns 'a

subsection \<open>\<^verbatim>\<open>count_words\<close>\<close>

text \<open>
  \<^verbatim>\<open>len(re.findall(r'\b\w+\b', text))\<close>: the matches are the maximal runs of word
  characters, found from left to right. A \<open>char\<close> is a code point below 128 here, where
  \<^verbatim>\<open>\w\<close> is a letter, a digit or the underscore; the model is about ASCII text.
\<close>

definition word_char :: "char \<Rightarrow> bool" where
  "word_char c =
     (let n = (of_char c :: nat)
      in (48 \<le> n \<and> n \<le> 57) \<or> (65 \<le> n \<and> n \<le> 90) \<or> n = 95 \<or> (97 \<le> n \<and> n \<le> 122))"

text \<open>\<open>word_runs inside text\<close>: the runs that start in \<open>text\<close>; \<open>inside\<close> tells that the
  character before \<open>text\<close> was a word character, so that a run is already open.\<close>

fun word_runs :: "bool \<Rightarrow> string \<Rightarrow> nat" where
  "word_runs inside [] = 0"
| "word_runs inside (c # cs) =
     (if word_char c then (if inside then 0 else 1) + word_runs True cs
      else word_runs False cs)"

definition count_words :: "string \<Rightarrow> int" where
  "count_words text = int (word_runs False text)"

subsection \<open>\<^verbatim>\<open>UsageTracker\<close>\<close>

record UsageTracker =
  word_count :: int
  word_limit :: int
  emails_processed :: int

definition UsageTracker_init :: "int \<Rightarrow> UsageTracker" where
  "UsageTracker_init limit = \<lparr>word_count = 0, word_limit = limit, emails_processed = 0\<rparr>"

definition default_limit :: int where
  "default_limit = 300000"

text \<open>\<^verbatim>\<open>add_usage\<close> returns the words charged and the tracker after the charge.\<close>

definition add_usage :: "string \<Rightarrow> UsageTracker \<Rightarrow> int \<times> UsageTracker" where
  "add_usage text u =
     (let words = count_words text
      in (words, u\<lparr>word_count := word_count u + words,
                    emails_processed := emails_processed u + 1\<rparr>))"

text \<open>
  \<^verbatim>\<open>get_stats\<close>. The two quotients are Python floats; the model keeps their exact
  values as rationals (nothing in the script computes with them, they are printed).
  \<^verbatim>\<open>self.word_count / self.word_limit\<close> raises when the limit is 0.
\<close>

record usage_stats =
  total_words :: int
  percentage_used :: rat
  words_remaining :: int
  stats_emails_processed :: int
  average_words_per_email :: rat

definition get_stats :: "UsageTracker \<Rightarrow> exn + usage_stats" where
  "get_stats u =
     (if word_limit u = 0 then Inl ZeroDivisionError
      else Inr \<lparr>total_words = word_count u,
                percentage_used = (of_int (word_count u) / of_int (word_limit u)) * 100,
                words_remaining = word_limit u - word_count u,
                stats_emails_processed = emails_processed u,
                average_words_per_email =
                  (if emails_processed u > 0
                   then of_int (word_count u) / of_int (emails_processed u) else 0)\<rparr>)"

subsection \<open>The record store: \<^verbatim>\<open>check_email_exists\<close> and \<^verbatim>\<open>upsert_email\<close>\<close>

text \<open>
  A row of the table \<^verbatim>\<open>emails\<close>, as far as the script reads it: the two score
  columns. \<open>None\<close> is a column that is missing or null, which \<^verbatim>\<open>email.get(...)\<close> gives
  back as Python's \<^verbatim>\<open>None\<close> in both cases.
\<close>

record email_row =
  row_gpt_zero_ai :: "rat option"
  row_gpt_zero_human :: "rat option"

text \<open>The argument is what the select for the message id did: it raised, or it returned
  \<^verbatim>\<open>response.data\<close>. The result is the pair \<^verbatim>\<open>(exists, has_scores)\<close>.\<close>

definition check_email_exists :: "email_row list call \<Rightarrow> bool \<times> bool" where
  "check_email_exists response =
     (case response of
        Raises \<Rightarrow> (False, False)
      | Returns data \<Rightarrow>
          (case data of
             [] \<Rightarrow> (False, False)
           | email # _ \<Rightarrow>
               (True, row_gpt_zero_ai email \<noteq> None \<and> row_gpt_zero_human email \<noteq> None)))"

text \<open>The dictionary \<^verbatim>\<open>email_data\<close>; the two score keys are set together or not at all.\<close>

record email_data =
  message_id :: string
  sender :: string
  body :: string
  gpt_zero_ai :: "rat option"
  gpt_zero_human :: "rat option"

text \<open>\<^verbatim>\<open>upsert_email\<close> gives \<^verbatim>\<open>None\<close> when the call raised, else the response object
  (which is truthy).\<close>

definition upsert_email :: "unit call \<Rightarrow> unit option" where
  "upsert_email response = (case response of Raises \<Rightarrow> None | Returns result \<Rightarrow> Some result)"

subsection \<open>The mailbox: \<^verbatim>\<open>get_email_body\<close> and the sender\<close>

text \<open>
  A message in the format \<^verbatim>\<open>full\<close>, as far as the script reads it. The value of a
  \<^verbatim>\<open>data\<close> key is kept as what \<^verbatim>\<open>base64.urlsafe_b64decode(data).decode()\<close> makes of
  it: the decoded text, or a raise (data that is not base64, bytes that are not UTF-8).
  A key that the script tests with \<^verbatim>\<open>in\<close> is an option; \<^verbatim>\<open>payload\<close>,
  \<^verbatim>\<open>headers\<close>, \<^verbatim>\<open>mimeType\<close> and the \<^verbatim>\<open>body\<close> of a part are always sent.
  Parts nested in a part are never read and have no field.
\<close>

datatype b64data = Decodes string | Undecodable

record part_body =
  data :: "b64data option"

record message_part =
  mimeType :: string
  part_body :: part_body

record payload =
  headers :: "(string \<times> string) list"
  parts :: "message_part list option"
  payload_body :: "part_body option"

record message =
  payload :: payload

definition b64decode_utf8 :: "b64data \<Rightarrow> exn + string" where
  "b64decode_utf8 d = (case d of Decodes text \<Rightarrow> Inr text | Undecodable \<Rightarrow> Inl DecodeError)"

text \<open>The \<^verbatim>\<open>for part in parts\<close> loop; \<open>None\<close> when it ends without a \<^verbatim>\<open>return\<close>.\<close>

fun first_plain_part :: "message_part list \<Rightarrow> (exn + string) option" where
  "first_plain_part [] = None"
| "first_plain_part (part # rest) =
     (if mimeType part = ''text/plain''
      then (case data (part_body part) of
              Some d \<Rightarrow> Some (b64decode_utf8 d)
            | None \<Rightarrow> first_plain_part rest)
      else first_plain_part rest)"

definition get_email_body :: "message \<Rightarrow> exn + string" where
  "get_email_body msg =
     (case parts (payload msg) of
        Some ps \<Rightarrow> (case first_plain_part ps of Some r \<Rightarrow> r | None \<Rightarrow> Inr [])
      | None \<Rightarrow>
          (case payload_body (payload msg) of
             Some b \<Rightarrow> (case data b of Some d \<Rightarrow> b64decode_utf8 d | None \<Rightarrow> Inr [])
           | None \<Rightarrow> Inr []))"

text \<open>\<^verbatim>\<open>h['name'].lower() == 'from'\<close>, and the \<^verbatim>\<open>next(..., '')\<close> over the headers
  (pairs of name and value).\<close>

definition lower_char :: "char \<Rightarrow> char" where
  "lower_char c =
     (case map_of (zip ''ABCDEFGHIJKLMNOPQRSTUVWXYZ'' ''abcdefghijklmnopqrstuvwxyz'') c of
        Some l \<Rightarrow> l
      | None \<Rightarrow> c)"

definition lower :: "string \<Rightarrow> string" where
  "lower s = map lower_char s"

fun get_sender :: "(string \<times> string) list \<Rightarrow> string" where
  "get_sender [] = []"
| "get_sender ((name, val) # hs) = (if lower name = ''from'' then val else get_sender hs)"

subsection \<open>The classifier: \<^verbatim>\<open>get_gptzero_scores\<close>\<close>

text \<open>
  The HTTP response, as far as the script reads it: the status code and the JSON body
  (\<open>None\<close> when \<^verbatim>\<open>response.json()\<close> raises). The path
  \<^verbatim>\<open>result['documents'][0]['class_probabilities']\<close> can fail at each step. The values
  of \<^verbatim>\<open>class_probabilities\<close> are the numbers the service declares them to be.
\<close>

record document =
  class_probabilities :: "(string \<times> rat) list option"

record gptzero_result =
  documents :: "document list option"

record http_response =
  status_code :: int
  json :: "gptzero_result option"

definition scores_of :: "http_response \<Rightarrow> exn + (string \<times> rat) list" where
  "scores_of response =
     (case json response of
        None \<Rightarrow> Inl ServiceError
      | Some result \<Rightarrow>
          (case documents result of
             None \<Rightarrow> Inl KeyError
           | Some [] \<Rightarrow> Inl IndexError
           | Some (doc # _) \<Rightarrow>
               (case class_probabilities doc of None \<Rightarrow> Inl KeyError | Some scores \<Rightarrow> Inr scores)))"

text \<open>\<^verbatim>\<open>scores.get(key, 0)\<close>\<close>

definition dict_get :: "(string \<times> rat) list \<Rightarrow> string \<Rightarrow> rat \<Rightarrow> rat" where
  "dict_get d k dflt = (case map_of d k of None \<Rightarrow> dflt | Some v \<Rightarrow> v)"

text \<open>What the run does outside itself, in order; each entry of the log is paired with the
  id of the message the loop was at.\<close>

datatype event =
    StoreSelect
  | GmailGet
  | AddUsage UsageTracker
  | GPTZeroPost string
  | StoreUpsert email_data
  | Sleep

text \<open>
  Lines 95 to 109, the \<^verbatim>\<open>try\<close> of \<^verbatim>\<open>get_gptzero_scores\<close>: the request and the reading
  of the response. The result is the pair \<^verbatim>\<open>(ai_score, human_score)\<close>; \<open>None\<close> is
  Python's \<^verbatim>\<open>None\<close>. Every exception is caught.
\<close>

definition post_and_read :: "http_response call \<Rightarrow> rat option \<times> rat option" where
  "post_and_read post =
     (case post of
        Raises \<Rightarrow> (None, None)
      | Returns response \<Rightarrow>
          if status_code response = 200
          then (case scores_of response of
                  Inl _ \<Rightarrow> (None, None)
                | Inr scores \<Rightarrow>
                    (Some (dict_get scores ''ai'' 0), Some (dict_get scores ''human'' 0)))
          else if status_code response = 429 then (None, None)
          else (None, None))"

text \<open>
  The whole function: the pair, or the exception that leaves the function, then the
  tracker, then what was done. The charge and \<^verbatim>\<open>get_stats\<close> come before the
  \<^verbatim>\<open>try\<close>: a raise there is not caught here, and the request is not made.
\<close>

definition get_gptzero_scores ::
  "string \<Rightarrow> http_response call \<Rightarrow> UsageTracker
     \<Rightarrow> (exn + rat option \<times> rat option) \<times> UsageTracker \<times> event list" where
  "get_gptzero_scores text post usage_tracker =
     (let (words, u) = add_usage text usage_tracker
      in case get_stats u of
           Inl e \<Rightarrow> (Inl e, u, [AddUsage u])
         | Inr _ \<Rightarrow> (Inr (post_and_read post), u, [AddUsage u, GPTZeroPost text]))"

subsection \<open>The loop of \<^verbatim>\<open>main\<close>\<close>

text \<open>One entry of the message list, with what each service does when the loop calls it
  for this message.\<close>

record item =
  item_id :: string
  store_select :: "email_row list call"
  gmail_get :: "message call"
  gptzero_post :: "http_response call"
  store_upsert :: "unit call"

record run_stats =
  processed :: int
  skipped_existing :: int
  skipped_rate_limit :: int
  errors :: int

record run_state =
  usage_tracker :: UsageTracker
  stats :: run_stats
  trace :: "(string \<times> event) list"

definition emit :: "string \<Rightarrow> event list \<Rightarrow> run_state \<Rightarrow> run_state" where
  "emit mid evs st = st\<lparr>trace := trace st @ map (Pair mid) evs\<rparr>"

definition count_processed :: "run_state \<Rightarrow> run_state" where
  "count_processed st = st\<lparr>stats := (stats st)\<lparr>processed := processed (stats st) + 1\<rparr>\<rparr>"

definition count_skipped_existing :: "run_state \<Rightarrow> run_state" where
  "count_skipped_existing st =
     st\<lparr>stats := (stats st)\<lparr>skipped_existing := skipped_existing (stats st) + 1\<rparr>\<rparr>"

definition count_skipped_rate_limit :: "run_state \<Rightarrow> run_state" where
  "count_skipped_rate_limit st =
     st\<lparr>stats := (stats st)\<lparr>skipped_rate_limit := skipped_rate_limit (stats st) + 1\<rparr>\<rparr>"

definition count_errors :: "run_state \<Rightarrow> run_state" where
  "count_errors st = st\<lparr>stats := (stats st)\<lparr>errors := errors (stats st) + 1\<rparr>\<rparr>"

text \<open>How an iteration ends: \<open>Continue\<close> goes to the next message (by \<^verbatim>\<open>continue\<close> or
  at the end of the body), \<open>Break\<close> leaves the loop.\<close>

datatype flow = Continue | Break

text \<open>
  Lines 189 to 212: the record is built, scored unless \<^verbatim>\<open>has_scores\<close>, upserted, and the
  loop sleeps. An exception of \<^verbatim>\<open>get_gptzero_scores\<close> leaves the body after the charge.
  The \<^verbatim>\<open>result\<close> of \<^verbatim>\<open>upsert_email\<close> decides only whether a line is printed (lines 207
  to 210); no counter depends on it.
\<close>

definition score_and_persist ::
  "run_state \<Rightarrow> item \<Rightarrow> bool \<Rightarrow> string \<Rightarrow> string \<Rightarrow> (exn + flow) \<times> run_state" where
  "score_and_persist st it has_scores sndr text =
     (let email = \<lparr>message_id = item_id it, sender = sndr, body = text,
                    gpt_zero_ai = None, gpt_zero_human = None\<rparr>;
          scored =
            (if \<not> has_scores
             then (case get_gptzero_scores text (gptzero_post it) (usage_tracker st) of
                     (Inl e, u, evs) \<Rightarrow> Inl (e, emit (item_id it) evs (st\<lparr>usage_tracker := u\<rparr>))
                   | (Inr (ai_score, human_score), u, evs) \<Rightarrow>
                       (let st1 = emit (item_id it) evs (st\<lparr>usage_tracker := u\<rparr>)
                        in if ai_score \<noteq> None \<and> human_score \<noteq> None
                           then Inr (email\<lparr>gpt_zero_ai := ai_score, gpt_zero_human := human_score\<rparr>,
                                     count_processed st1)
                           else Inr (email, count_skipped_rate_limit st1)))
             else Inr (email, st))
      in case scored of
           Inl (e, st1) \<Rightarrow> (Inl e, st1)
         | Inr (email1, st1) \<Rightarrow>
             (let result = upsert_email (store_upsert it);
                  st2 = emit (item_id it) [StoreUpsert email1] st1
              in (Inr Continue, emit (item_id it) [Sleep] st2)))"

text \<open>Lines 158 to 212, the body of the \<^verbatim>\<open>try\<close>.\<close>

definition item_body :: "run_state \<Rightarrow> item \<Rightarrow> (exn + flow) \<times> run_state" where
  "item_body st it =
     (let (exists, has_scores) = check_email_exists (store_select it);
          st1 = emit (item_id it) [StoreSelect] st
      in if exists \<and> has_scores then (Inr Continue, count_skipped_existing st1)
         else
           (let st2 = emit (item_id it) [GmailGet] st1
            in case gmail_get it of
                 Raises \<Rightarrow> (Inl ServiceError, st2)
               | Returns msg \<Rightarrow>
                   (let sndr = get_sender (headers (payload msg))
                    in case get_email_body msg of
                         Inl e \<Rightarrow> (Inl e, st2)
                       | Inr text \<Rightarrow>
                           if text = [] then (Inr Continue, count_errors st2)
                           else
                             (let words = count_words text;
                                  total_after = word_count (usage_tracker st2) + words
                              in if total_after > word_limit (usage_tracker st2)
                                 then (Inr Break, st2)
                                 else score_and_persist st2 it has_scores sndr text))))"

text \<open>The \<^verbatim>\<open>try\<close> with its \<^verbatim>\<open>except Exception\<close>: one iteration of the loop.\<close>

definition process_item :: "run_state \<Rightarrow> item \<Rightarrow> flow \<times> run_state" where
  "process_item st it =
     (case item_body st it of
        (Inl e, st1) \<Rightarrow> (Continue, count_errors st1)
      | (Inr f, st1) \<Rightarrow> (f, st1))"

text \<open>The \<^verbatim>\<open>for\<close> loop. The first component tells how it ended: \<open>Break\<close> when it was
  left by \<^verbatim>\<open>break\<close>, \<open>Continue\<close> when the list ran out.\<close>

fun process_messages :: "run_state \<Rightarrow> item list \<Rightarrow> flow \<times> run_state" where
  "process_messages st [] = (Continue, st)"
| "process_messages st (it # rest) =
     (case process_item st it of
        (Break, st1) \<Rightarrow> (Break, st1)
      | (Continue, st1) \<Rightarrow> process_messages st1 rest)"

subsection \<open>\<^verbatim>\<open>main\<close>\<close>

text \<open>The services are set up, the messages listed (a result without the key
  \<^verbatim>\<open>messages\<close> is the empty list), the loop runs, the two summaries are printed.\<close>

record world =
  services :: "unit call"
  messages_list :: "item list call"

datatype outcome =
    Fatal exn
  | NoEmails
  | Completed run_stats usage_stats

definition initial_state :: run_state where
  "initial_state =
     \<lparr>usage_tracker = UsageTracker_init default_limit,
      stats = \<lparr>processed = 0, skipped_existing = 0, skipped_rate_limit = 0, errors = 0\<rparr>,
      trace = []\<rparr>"

definition main :: "world \<Rightarrow> outcome \<times> (string \<times> event) list" where
  "main w =
     (case services w of
        Raises \<Rightarrow> (Fatal ServiceError, [])
      | Returns _ \<Rightarrow>
          (case messages_list w of
             Raises \<Rightarrow> (Fatal ServiceError, [])
           | Returns messages \<Rightarrow>
               if messages = [] then (NoEmails, [])
               else
                 (let (_, st) = process_messages initial_state messages
                  in case get_stats (usage_tracker st) of
                       Inl e \<Rightarrow> (Fatal e, trace st)
                     | Inr final_stats \<Rightarrow> (Completed (stats st) final_stats, trace st))))"

subsection \<open>Sequences of charges\<close>

text \<open>\<^verbatim>\<open>add_usage\<close> called on each text of a list in turn: the values the calls return,
  and the tracker after the last one.\<close>

fun add_usages :: "string list \<Rightarrow> UsageTracker \<Rightarrow> int list \<times> UsageTracker" where
  "add_usages [] u = ([], u)"
| "add_usages (text # texts) u =
     (let (words, u1) = add_usage text u;
          (charged, u2) = add_usages texts u1
      in (words # charged, u2))"

subsection \<open>The ledger over a run\<close>

text \<open>The trackers that the log holds: one for each \<^verbatim>\<open>add_usage\<close> call, as the call left
  it.\<close>

fun charges :: "(string \<times> event) list \<Rightarrow> UsageTracker list" where
  "charges [] = []"
| "charges ((m, AddUsage u) # tr) = u # charges tr"
| "charges ((m, e) # tr) = charges tr"

text \<open>The count is within the limit now, and was after every charge so far.\<close>

definition within_limit :: "run_state \<Rightarrow> bool" where
  "within_limit st =
     (word_count (usage_tracker st) \<le> word_limit (usage_tracker st)
      \<and> list_all (\<lambda>u. word_count u \<le> word_limit u) (charges (trace st)))"

subsection \<open>Sample inputs\<close>

text \<open>A message with one body and no parts, a response with status 200, and a message
  that the store does not know yet, with all the services answering.\<close>

definition plain_message :: "string \<Rightarrow> string \<Rightarrow> message" where
  "plain_message frm s =
     \<lparr>payload = \<lparr>headers = [(''To'', ''me@example.org''), (''From'', frm)], parts = None,
                  payload_body = Some \<lparr>data = Some (Decodes s)\<rparr>\<rparr>\<rparr>"

definition ok_response :: "(string \<times> rat) list \<Rightarrow> http_response" where
  "ok_response scores =
     \<lparr>status_code = 200,
      json = Some \<lparr>documents = Some [\<lparr>class_probabilities = Some scores\<rparr>]\<rparr>\<rparr>"

definition new_item :: "string \<Rightarrow> string \<Rightarrow> http_response call \<Rightarrow> item" where
  "new_item mid s post =
     \<lparr>item_id = mid, store_select = Returns [],
      gmail_get = Returns (plain_message ''ann@example.org'' s),
      gptzero_post = post, store_upsert = Returns ()\<rparr>"

definition scored_row :: email_row where
  "scored_row = \<lparr>row_gpt_zero_ai = Some (1 / 5), row_gpt_zero_human = Some (4 / 5)\<rparr>"

definition state_with :: "int \<Rightarrow> int \<Rightarrow> run_state" where
  "state_with used limit =
     \<lparr>usage_tracker = \<lparr>word_count = used, word_limit = limit, emails_processed = 0\<rparr>,
      stats = \<lparr>processed = 0, skipped_existing = 0, skipped_rate_limit = 0, errors = 0\<rparr>,
      trace = []\<rparr>"

text \<open>A text of \<open>n\<close> words.\<close>

definition words_text :: "nat \<Rightarrow> string" where
  "words_text n = concat (replicate n ''a '')"

text \<open>A list of two new messages: the first is scored, the second meets a rate limit.\<close>

definition two_messages :: "item list" where
  "two_messages =
     [new_item ''m1'' ''hello big world''
        (Returns (ok_response [(''ai'', 4 / 5), (''human'', 1 / 5)])),
      new_item ''m2'' ''see you soon, Bob'' (Returns \<lparr>status_code = 429, json = None\<rparr>)]"

text \<open>Two bodies, of eleven and of ten words.\<close>

definition eleven_words :: string where
  "eleven_words = ''one two three four five six seven eight nine ten eleven''"

definition ten_words :: string where
  "ten_words = ''one two three four five six seven eight nine ten''"

text \<open>A message that the store reports with both scores.\<close>

definition scored_item :: "string \<Rightarrow> item" where
  "scored_item mid =
     (new_item mid ''old news'' (Returns (ok_response [])))\<lparr>store_select := Returns [scored_row]\<rparr>"

text \<open>A message of 300000 words, and a run that meets it after two short messages.\<close>

definition long_item :: item where
  "long_item = new_item ''m3'' (words_text 300000) (Returns (ok_response []))"

definition overshoot_world :: world where
  "overshoot_world =
     \<lparr>services = Returns (),
      messages_list = Returns (two_messages @ long_item # [new_item ''m4'' ''never read'' Raises])\<rparr>"

text \<open>A message for which the classifier answers with the \<^verbatim>\<open>human\<close> probability only.\<close>

definition human_only_item :: item where
  "human_only_item = new_item ''m5'' ''hello big world'' (Returns (ok_response [(''human'', 3 / 10)]))"

text \<open>A new message for which the classifier answers with status 429.\<close>

definition rate_limited_item :: item where
  "rate_limited_item =
     new_item ''m6'' ''see you soon, Bob'' (Returns \<lparr>status_code = 429, json = None\<rparr>)"

text \<open>A new message that is scored and whose upsert raises, and one whose body is empty.\<close>

definition failed_upsert_item :: item where
  "failed_upsert_item =
     (new_item ''m7'' ''hello big world''
        (Returns (ok_response [(''ai'', 4 / 5), (''human'', 1 / 5)])))\<lparr>store_upsert := Raises\<rparr>"

definition empty_body_item :: item where
  "empty_body_item = new_item ''m8'' [] Raises"

text \<open>Parts and messages: a part in HTML, a plain part without data (an attachment), a
  plain part with data, a message with parts and one without.\<close>

definition html_part :: message_part where
  "html_part = \<lparr>mimeType = ''text/html'', part_body = \<lparr>data = Some (Decodes ''<p>hi</p>'')\<rparr>\<rparr>"

definition attached_part :: message_part where
  "attached_part = \<lparr>mimeType = ''text/plain'', part_body = \<lparr>data = None\<rparr>\<rparr>"

definition plain_part :: "string \<Rightarrow> message_part" where
  "plain_part s = \<lparr>mimeType = ''text/plain'', part_body = \<lparr>data = Some (Decodes s)\<rparr>\<rparr>"

definition multipart_message :: "message_part list \<Rightarrow> part_body option \<Rightarrow> message" where
  "multipart_message ps b =
     \<lparr>payload = \<lparr>headers = [(''From'', ''ann@example.org'')], parts = Some ps, payload_body = b\<rparr>\<rparr>"

definition bare_message :: "part_body option \<Rightarrow> message" where
  "bare_message b =
     \<lparr>payload = \<lparr>headers = [(''From'', ''ann@example.org'')], parts = None, payload_body = b\<rparr>\<rparr>"

section \<open>Properties\<close>

subsection \<open>The usage tracker\<close>

lemma count_words_nonneg: "0 \<le> count_words s"
  by (simp add: count_words_def)

lemma add_usage_fst: "fst (add_usage s u) = count_words s"
  by (simp add: add_usage_def Let_def)

lemma add_usage_word_count:
  "word_count (snd (add_usage s u)) = word_count u + count_words s"
  by (simp add: add_usage_def Let_def)

lemma add_usage_word_limit: "word_limit (snd (add_usage s u)) = word_limit u"
  by (simp add: add_usage_def Let_def)

lemma add_usages_charged: "fst (add_usages texts u) = map count_words texts"
  by (induction texts arbitrary: u) (simp_all add: split_beta Let_def add_usage_fst)

lemma add_usages_word_count:
  "word_count (snd (add_usages texts u)) = word_count u + sum_list (fst (add_usages texts u))"
  by (induction texts arbitrary: u)
     (simp_all add: split_beta Let_def add_usage_word_count add_usage_fst)

lemma add_usages_append:
  "snd (add_usages (xs @ ys) u) = snd (add_usages ys (snd (add_usages xs u)))"
  by (induction xs arbitrary: u) (simp_all add: split_beta Let_def)

lemma add_usages_mono: "word_count u \<le> word_count (snd (add_usages texts u))"
proof -
  have "0 \<le> sum_list (map count_words texts)"
    by (rule sum_list_nonneg) (auto simp: count_words_nonneg)
  then show ?thesis
    by (simp add: add_usages_word_count add_usages_charged)
qed

text \<open>
  C7. After any sequence of \<^verbatim>\<open>add_usage\<close> calls on a fresh tracker, \<open>word_count\<close> is the
  sum of the values the calls returned. The count never decreases: after a prefix of the
  calls it is at most what it is after all of them (from any tracker), and one call never
  lowers it.
\<close>

theorem usage_is_sum_of_charges:
  "word_count (snd (add_usages texts (UsageTracker_init limit)))
     = sum_list (fst (add_usages texts (UsageTracker_init limit)))
   \<and> word_count (snd (add_usages (take k texts) u)) \<le> word_count (snd (add_usages texts u))
   \<and> word_count u \<le> word_count (snd (add_usage s u))"
proof -
  have a: "word_count (snd (add_usages texts (UsageTracker_init limit)))
     = sum_list (fst (add_usages texts (UsageTracker_init limit)))"
    using add_usages_word_count [of texts "UsageTracker_init limit"]
    by (simp add: UsageTracker_init_def)
  have "snd (add_usages texts u)
          = snd (add_usages (drop k texts) (snd (add_usages (take k texts) u)))"
    using add_usages_append [of "take k texts" "drop k texts" u] by simp
  then have b: "word_count (snd (add_usages (take k texts) u))
                  \<le> word_count (snd (add_usages texts u))"
    using add_usages_mono [of "snd (add_usages (take k texts) u)" "drop k texts"] by simp
  have c: "word_count u \<le> word_count (snd (add_usage s u))"
    using count_words_nonneg [of s] by (simp add: add_usage_word_count)
  from a b c show ?thesis by blast
qed

subsection \<open>One iteration of the loop, path by path\<close>

lemmas item_defs = process_item_def item_body_def score_and_persist_def emit_def
  count_processed_def count_skipped_existing_def count_skipped_rate_limit_def count_errors_def
  get_gptzero_scores_def upsert_email_def

lemma has_scores_exists:
  "snd (check_email_exists r) \<Longrightarrow> fst (check_email_exists r)"
  by (auto simp: check_email_exists_def split: call.splits list.splits)

lemma process_item_existing:
  assumes "snd (check_email_exists (store_select it))"
  shows "process_item st it = (Continue, count_skipped_existing (emit (item_id it) [StoreSelect] st))"
  using assms has_scores_exists [OF assms]
  by (simp add: process_item_def item_body_def split_beta Let_def)

lemma process_item_fetch_raises:
  assumes "\<not> snd (check_email_exists (store_select it))" "gmail_get it = Raises"
  shows "process_item st it = (Continue, count_errors (emit (item_id it) [StoreSelect, GmailGet] st))"
  using assms
  by (simp add: process_item_def item_body_def split_beta Let_def emit_def)

lemma process_item_body_raises:
  assumes "\<not> snd (check_email_exists (store_select it))" "gmail_get it = Returns msg"
    "get_email_body msg = Inl e"
  shows "process_item st it = (Continue, count_errors (emit (item_id it) [StoreSelect, GmailGet] st))"
  using assms
  by (simp add: process_item_def item_body_def split_beta Let_def emit_def)

lemma process_item_empty_body:
  assumes "\<not> snd (check_email_exists (store_select it))" "gmail_get it = Returns msg"
    "get_email_body msg = Inr []"
  shows "process_item st it = (Continue, count_errors (emit (item_id it) [StoreSelect, GmailGet] st))"
  using assms
  by (simp add: process_item_def item_body_def split_beta Let_def emit_def)

lemma process_item_overshoot:
  assumes "\<not> snd (check_email_exists (store_select it))" "gmail_get it = Returns msg"
    "get_email_body msg = Inr s" "s \<noteq> []"
    "word_count (usage_tracker st) + count_words s > word_limit (usage_tracker st)"
  shows "process_item st it = (Break, emit (item_id it) [StoreSelect, GmailGet] st)"
  using assms
  by (simp add: process_item_def item_body_def split_beta Let_def emit_def)

lemma process_item_zero_limit:
  assumes "\<not> snd (check_email_exists (store_select it))" "gmail_get it = Returns msg"
    "get_email_body msg = Inr s" "s \<noteq> []"
    "word_count (usage_tracker st) + count_words s \<le> word_limit (usage_tracker st)"
    "word_limit (usage_tracker st) = 0"
  shows "process_item st it =
     (Continue,
      count_errors
        (emit (item_id it) [StoreSelect, GmailGet, AddUsage (snd (add_usage s (usage_tracker st)))]
           (st\<lparr>usage_tracker := snd (add_usage s (usage_tracker st))\<rparr>)))"
  using assms
  by (simp add: item_defs split_beta Let_def get_stats_def add_usage_def)

lemma process_item_scoring:
  assumes "\<not> snd (check_email_exists (store_select it))" "gmail_get it = Returns msg"
    "get_email_body msg = Inr s" "s \<noteq> []"
    "word_count (usage_tracker st) + count_words s \<le> word_limit (usage_tracker st)"
    "word_limit (usage_tracker st) \<noteq> 0"
  shows "process_item st it =
     (Continue,
      (let u = snd (add_usage s (usage_tracker st));
           (ai_score, human_score) = post_and_read (gptzero_post it);
           scored = (ai_score \<noteq> None \<and> human_score \<noteq> None);
           email = \<lparr>message_id = item_id it, sender = get_sender (headers (payload msg)), body = s,
                     gpt_zero_ai = (if scored then ai_score else None),
                     gpt_zero_human = (if scored then human_score else None)\<rparr>
       in \<lparr>usage_tracker = u,
           stats = (if scored then (stats st)\<lparr>processed := processed (stats st) + 1\<rparr>
                    else (stats st)\<lparr>skipped_rate_limit := skipped_rate_limit (stats st) + 1\<rparr>),
           trace = trace st @ map (Pair (item_id it))
                     [StoreSelect, GmailGet, AddUsage u, GPTZeroPost s, StoreUpsert email, Sleep]\<rparr>))"
  using assms
  by (auto simp add: item_defs split_beta Let_def get_stats_def add_usage_def)

lemma process_item_cases [case_names existing fetch_raises body_raises empty_body overshoot zero_limit scoring]:
  obtains
    "snd (check_email_exists (store_select it))"
  | "\<not> snd (check_email_exists (store_select it))" "gmail_get it = Raises"
  | msg e where "\<not> snd (check_email_exists (store_select it))" "gmail_get it = Returns msg"
      "get_email_body msg = Inl e"
  | msg where "\<not> snd (check_email_exists (store_select it))" "gmail_get it = Returns msg"
      "get_email_body msg = Inr []"
  | msg s where "\<not> snd (check_email_exists (store_select it))" "gmail_get it = Returns msg"
      "get_email_body msg = Inr s" "s \<noteq> []"
      "word_count (usage_tracker st) + count_words s > word_limit (usage_tracker st)"
  | msg s where "\<not> snd (check_email_exists (store_select it))" "gmail_get it = Returns msg"
      "get_email_body msg = Inr s" "s \<noteq> []"
      "word_count (usage_tracker st) + count_words s \<le> word_limit (usage_tracker st)"
      "word_limit (usage_tracker st) = 0"
  | msg s where "\<not> snd (check_email_exists (store_select it))" "gmail_get it = Returns msg"
      "get_email_body msg = Inr s" "s \<noteq> []"
      "word_count (usage_tracker st) + count_words s \<le> word_limit (usage_tracker st)"
      "word_limit (usage_tracker st) \<noteq> 0"
proof (cases "snd (check_email_exists (store_select it))")
  case True
  then show ?thesis using that(1) by blast
next
  case unscored: False
  show ?thesis
  proof (cases "gmail_get it")
    case Raises
    with unscored show ?thesis using that(2) by blast
  next
    case (Returns msg)
    show ?thesis
    proof (cases "get_email_body msg")
      case (Inl e)
      with unscored Returns show ?thesis using that(3) by blast
    next
      case (Inr s)
      show ?thesis
      proof (cases "s = []")
        case True
        with unscored Returns Inr show ?thesis using that(4) by blast
      next
        case nonempty: False
        show ?thesis
        proof (cases "word_count (usage_tracker st) + count_words s > word_limit (usage_tracker st)")
          case True
          with unscored Returns Inr nonempty show ?thesis using that(5) by blast
        next
          case False
          then have le: "word_count (usage_tracker st) + count_words s \<le> word_limit (usage_tracker st)"
            by simp
          show ?thesis
          proof (cases "word_limit (usage_tracker st) = 0")
            case True
            with unscored Returns Inr nonempty le show ?thesis using that(6) by blast
          next
            case False
            with unscored Returns Inr nonempty le show ?thesis using that(7) by blast
          qed
        qed
      qed
    qed
  qed
qed

lemma charges_append: "charges (xs @ ys) = charges xs @ charges ys"
  by (induction xs rule: charges.induct) simp_all

lemma process_item_within_limit:
  assumes "within_limit st"
  shows "within_limit (snd (process_item st it))"
proof (rule process_item_cases [where it=it and st=st], goal_cases existing fetch_raises body_raises empty_body overshoot zero_limit scoring)
  case existing
  with assms show ?thesis
    by (simp add: process_item_existing within_limit_def count_skipped_existing_def emit_def charges_append)
next
  case fetch_raises
  with assms show ?thesis
    by (simp add: process_item_fetch_raises within_limit_def count_errors_def emit_def charges_append)
next
  case (body_raises msg e)
  with assms show ?thesis
    by (simp add: process_item_body_raises within_limit_def count_errors_def emit_def charges_append)
next
  case (empty_body msg)
  with assms show ?thesis
    by (simp add: process_item_empty_body within_limit_def count_errors_def emit_def charges_append)
next
  case (overshoot msg s)
  with assms show ?thesis
    by (simp add: process_item_overshoot within_limit_def emit_def charges_append)
next
  case (zero_limit msg s)
  with assms show ?thesis
    by (simp add: process_item_zero_limit within_limit_def count_errors_def emit_def charges_append
        add_usage_word_count add_usage_word_limit)
next
  case (scoring msg s)
  with assms show ?thesis
    by (simp add: process_item_scoring within_limit_def charges_append Let_def split_beta
        add_usage_word_count add_usage_word_limit)
qed

lemma process_messages_within_limit:
  "within_limit st \<Longrightarrow> within_limit (snd (process_messages st items))"
proof (induction items arbitrary: st)
  case Nil
  then show ?case by simp
next
  case (Cons it items)
  obtain f st1 where p: "process_item st it = (f, st1)" by (cases "process_item st it")
  have w: "within_limit st1"
    using process_item_within_limit [OF Cons.prems, of it] p by simp
  show ?case
  proof (cases f)
    case Continue
    with p w Cons.IH [of st1] show ?thesis by simp
  next
    case Break
    with p w show ?thesis by simp
  qed
qed

subsection \<open>The limit over a run\<close>

lemmas sample_defs = plain_message_def ok_response_def new_item_def scored_row_def state_with_def

lemmas eval_defs = item_defs check_email_exists_def get_email_body_def b64decode_utf8_def
  lower_def lower_char_def count_words_def word_char_def add_usage_def get_stats_def
  post_and_read_def scores_of_def dict_get_def initial_state_def UsageTracker_init_def
  default_limit_def

lemma within_limit_initial: "within_limit initial_state"
  by (simp add: within_limit_def initial_state_def UsageTracker_init_def default_limit_def)

lemma main_trace_charges:
  "list_all (\<lambda>u. word_count u \<le> word_limit u) (charges (snd (main w)))"
proof -
  have "list_all (\<lambda>u. word_count u \<le> word_limit u)
          (charges (trace (snd (process_messages initial_state ms))))" for ms
    using process_messages_within_limit [OF within_limit_initial, of ms]
    by (simp add: within_limit_def)
  then show ?thesis
    by (simp add: main_def split_beta Let_def split: call.splits sum.splits)
qed

lemma process_item_word_limit:
  "word_limit (usage_tracker (snd (process_item st it))) = word_limit (usage_tracker st)"
proof (rule process_item_cases [where it=it and st=st], goal_cases existing fetch_raises body_raises empty_body overshoot zero_limit scoring)
  case existing
  then show ?case
    by (simp add: process_item_existing count_skipped_existing_def emit_def)
next
  case fetch_raises
  then show ?case
    by (simp add: process_item_fetch_raises count_errors_def emit_def)
next
  case (body_raises msg e)
  then show ?case
    by (simp add: process_item_body_raises count_errors_def emit_def)
next
  case (empty_body msg)
  then show ?case
    by (simp add: process_item_empty_body count_errors_def emit_def)
next
  case (overshoot msg s)
  then show ?case
    by (simp add: process_item_overshoot emit_def)
next
  case (zero_limit msg s)
  then show ?case
    by (simp add: process_item_zero_limit count_errors_def emit_def add_usage_word_limit)
next
  case (scoring msg s)
  then show ?case
    by (simp add: process_item_scoring Let_def split_beta add_usage_word_limit)
qed

lemma process_messages_word_limit:
  "word_limit (usage_tracker (snd (process_messages st items))) = word_limit (usage_tracker st)"
proof (induction items arbitrary: st)
  case Nil
  then show ?case by simp
next
  case (Cons it items)
  obtain f st1 where p: "process_item st it = (f, st1)" by (cases "process_item st it")
  then have "word_limit (usage_tracker st1) = word_limit (usage_tracker st)"
    using process_item_word_limit [of st it] by simp
  with p Cons.IH [of st1] show ?case by (cases f) simp_all
qed

lemma main_completed_total:
  assumes "fst (main w) = Completed s f"
  shows "total_words f \<le> default_limit"
proof -
  from assms obtain ms where ms: "messages_list w = Returns ms"
    and f: "get_stats (usage_tracker (snd (process_messages initial_state ms))) = Inr f"
    by (auto simp: main_def split_beta Let_def split: call.splits sum.splits if_splits)
  have "within_limit (snd (process_messages initial_state ms))"
    by (rule process_messages_within_limit [OF within_limit_initial])
  moreover have "word_limit (usage_tracker (snd (process_messages initial_state ms))) = default_limit"
    by (simp add: process_messages_word_limit initial_state_def UsageTracker_init_def)
  ultimately show ?thesis using f
    by (auto simp: within_limit_def get_stats_def split: if_splits)
qed

lemma two_messages_run:
  "main \<lparr>services = Returns (), messages_list = Returns two_messages\<rparr> = 
    (Completed
   \<lparr>processed = 1, skipped_existing = 0, skipped_rate_limit = 1, errors = 0\<rparr>
   \<lparr>total_words = 7, percentage_used = 7 / 3000, words_remaining = 299993,
      stats_emails_processed = 2, average_words_per_email = 7 / 2\<rparr>,
  [(''m1'', StoreSelect), (''m1'', GmailGet),
   (''m1'',
    AddUsage \<lparr>word_count = 3, word_limit = 300000, emails_processed = 1\<rparr>),
   (''m1'', GPTZeroPost ''hello big world''),
   (''m1'',
    StoreUpsert
     \<lparr>message_id = ''m1'', sender = ''ann@example.org'',
        body = ''hello big world'', gpt_zero_ai = Some (4 / 5),
        gpt_zero_human = Some (1 / 5)\<rparr>),
   (''m1'', Sleep), (''m2'', StoreSelect), (''m2'', GmailGet),
   (''m2'',
    AddUsage \<lparr>word_count = 7, word_limit = 300000, emails_processed = 2\<rparr>),
   (''m2'', GPTZeroPost ''see you soon, Bob''),
   (''m2'',
    StoreUpsert
     \<lparr>message_id = ''m2'', sender = ''ann@example.org'',
        body = ''see you soon, Bob'', gpt_zero_ai = None,
        gpt_zero_human = None\<rparr>),
   (''m2'', Sleep)])"
  by (simp add: main_def two_messages_def sample_defs eval_defs Let_def del: not_None_eq)

text \<open>
  C1. The count of the tracker never exceeds its limit. If it is within the limit, and was
  after every charge so far, then the same holds after the loop has gone through any list
  of messages (the log holds the tracker as each \<^verbatim>\<open>add_usage\<close> call left it). In a run of
  \<^verbatim>\<open>main\<close>, which starts from a count of 0 and the limit 300000, every charge leaves the
  count within the limit, and the total that is printed at the end is at most the limit.
\<close>

theorem ledger_never_exceeds_limit:
  "(within_limit st \<longrightarrow> within_limit (snd (process_messages st items)))
   \<and> list_all (\<lambda>u. word_count u \<le> word_limit u) (charges (snd (main w)))
   \<and> (\<forall>s f. fst (main w) = Completed s f \<longrightarrow> total_words f \<le> default_limit)"
  using process_messages_within_limit [of st items] main_trace_charges [of w]
    main_completed_total [of w]
  by blast

theorem ledger_never_exceeds_limit_witness:
  "within_limit initial_state
   \<and> within_limit (snd (process_messages initial_state two_messages))
   \<and> list_all (\<lambda>u. word_count u \<le> word_limit u)
        (charges (snd (main \<lparr>services = Returns (), messages_list = Returns two_messages\<rparr>)))
   \<and> fst (main \<lparr>services = Returns (), messages_list = Returns two_messages\<rparr>)
        = Completed
            \<lparr>processed = 1, skipped_existing = 0, skipped_rate_limit = 1, errors = 0\<rparr>
            \<lparr>total_words = 7, percentage_used = 7 / 3000, words_remaining = 299993,
               stats_emails_processed = 2, average_words_per_email = 7 / 2\<rparr>
   \<and> (7::int) \<le> default_limit"
  using ledger_never_exceeds_limit
          [of initial_state two_messages
              "\<lparr>services = Returns (), messages_list = Returns two_messages\<rparr>"]
    within_limit_initial two_messages_run
  by (simp add: default_limit_def)

subsection \<open>The quota check\<close>

lemma not_both_iff: "check_email_exists r \<noteq> (True, True) \<longleftrightarrow> \<not> snd (check_email_exists r)"
  using has_scores_exists [of r] by (cases "check_email_exists r") auto

lemma both_iff: "check_email_exists r = (True, True) \<longleftrightarrow> snd (check_email_exists r)"
  using not_both_iff [of r] by blast

lemma count_words_Nil: "count_words [] = 0"
  by (simp add: count_words_def)

lemma process_messages_Break:
  "process_item st it = (Break, st1) \<Longrightarrow> process_messages st (it # rest) = (Break, st1)"
  by simp

lemma process_messages_Continue:
  "process_item st it = (Continue, st1) \<Longrightarrow> process_messages st (it # rest) = process_messages st1 rest"
  by simp

lemma process_messages_append:
  "process_messages st (xs @ ys) =
     (case process_messages st xs of
        (Break, st1) \<Rightarrow> (Break, st1)
      | (Continue, st1) \<Rightarrow> process_messages st1 ys)"
proof (induction xs arbitrary: st)
  case Nil
  then show ?case by simp
next
  case (Cons x xs)
  obtain f st1 where p: "process_item st x = (f, st1)" by (cases "process_item st x")
  with Cons.IH [of st1] show ?case by (cases f) simp_all
qed

text \<open>
  C3. With a limit of 100 and a count of 90, a message that reaches the quota check (the
  store does not report it as scored, the fetch returns, the body decodes) and whose body
  has 11 words ends the loop: nothing is done for it beyond the lookup and the fetch, the
  tracker and the counters stay as they were, and the rest of the list is not touched. A
  body of 10 words passes the check (it is strict): the classifier is called, the count
  becomes exactly 100, and when the classifier answers with two scores the message is
  counted as processed.
\<close>

theorem quota_boundary:
  assumes "word_limit (usage_tracker st) = 100" and "word_count (usage_tracker st) = 90"
    and "check_email_exists (store_select it) \<noteq> (True, True)"
    and "gmail_get it = Returns msg" and "get_email_body msg = Inr s"
  shows "(count_words s = 11 \<longrightarrow>
            process_messages st (it # rest)
              = (Break, st\<lparr>trace := trace st @ [(item_id it, StoreSelect), (item_id it, GmailGet)]\<rparr>))
       \<and> (count_words s = 10 \<longrightarrow>
            fst (process_item st it) = Continue
            \<and> word_count (usage_tracker (snd (process_item st it))) = 100
            \<and> (item_id it, GPTZeroPost s) \<in> set (trace (snd (process_item st it)))
            \<and> (\<forall>ai human. post_and_read (gptzero_post it) = (Some ai, Some human) \<longrightarrow>
                  stats (snd (process_item st it))
                    = (stats st)\<lparr>processed := processed (stats st) + 1\<rparr>))"
proof -
  have unscored: "\<not> snd (check_email_exists (store_select it))"
    using assms(3) by (simp add: not_both_iff)
  have eleven: "process_messages st (it # rest)
              = (Break, st\<lparr>trace := trace st @ [(item_id it, StoreSelect), (item_id it, GmailGet)]\<rparr>)"
    if c: "count_words s = 11"
  proof -
    from c have ne: "s \<noteq> []" using count_words_Nil by auto
    have "process_item st it = (Break, emit (item_id it) [StoreSelect, GmailGet] st)"
      using unscored assms c ne by (intro process_item_overshoot [of it msg s]) simp_all
    then show ?thesis by (simp add: emit_def)
  qed
  have ten: "fst (process_item st it) = Continue
            \<and> word_count (usage_tracker (snd (process_item st it))) = 100
            \<and> (item_id it, GPTZeroPost s) \<in> set (trace (snd (process_item st it)))
            \<and> (\<forall>ai human. post_and_read (gptzero_post it) = (Some ai, Some human) \<longrightarrow>
                  stats (snd (process_item st it))
                    = (stats st)\<lparr>processed := processed (stats st) + 1\<rparr>)"
    if c: "count_words s = 10"
  proof -
    from c have ne: "s \<noteq> []" using count_words_Nil by auto
    have p: "process_item st it = (Continue,
      (let u = snd (add_usage s (usage_tracker st));
           (ai_score, human_score) = post_and_read (gptzero_post it);
           scored = (ai_score \<noteq> None \<and> human_score \<noteq> None);
           email = \<lparr>message_id = item_id it, sender = get_sender (headers (payload msg)), body = s,
                     gpt_zero_ai = (if scored then ai_score else None),
                     gpt_zero_human = (if scored then human_score else None)\<rparr>
       in \<lparr>usage_tracker = u,
           stats = (if scored then (stats st)\<lparr>processed := processed (stats st) + 1\<rparr>
                    else (stats st)\<lparr>skipped_rate_limit := skipped_rate_limit (stats st) + 1\<rparr>),
           trace = trace st @ map (Pair (item_id it))
                     [StoreSelect, GmailGet, AddUsage u, GPTZeroPost s, StoreUpsert email, Sleep]\<rparr>))"
      using unscored assms c ne by (intro process_item_scoring [of it msg s]) simp_all
    show ?thesis
      using assms(2) c
      by (simp add: p Let_def split_beta add_usage_word_count)
  qed
  from eleven ten show ?thesis by blast
qed

theorem quota_boundary_witness:
  "count_words eleven_words = 11
   \<and> process_messages (state_with 90 100)
         (new_item ''m0'' eleven_words (Returns (ok_response [(''ai'', 1)])) # two_messages)
       = (Break, (state_with 90 100)\<lparr>trace := [(''m0'', StoreSelect), (''m0'', GmailGet)]\<rparr>)
   \<and> count_words ten_words = 10
   \<and> word_count (usage_tracker (snd (process_item (state_with 90 100)
         (new_item ''m0'' ten_words (Returns (ok_response [(''ai'', 1)])))))) = 100
   \<and> (''m0'', GPTZeroPost ten_words)
         \<in> set (trace (snd (process_item (state_with 90 100)
               (new_item ''m0'' ten_words (Returns (ok_response [(''ai'', 1)]))))))
   \<and> stats (snd (process_item (state_with 90 100)
         (new_item ''m0'' ten_words (Returns (ok_response [(''ai'', 1)])))))
       = \<lparr>processed = 1, skipped_existing = 0, skipped_rate_limit = 0, errors = 0\<rparr>"
proof -
  have c11: "count_words eleven_words = 11"
    by (simp add: eleven_words_def count_words_def word_char_def)
  have c10: "count_words ten_words = 10"
    by (simp add: ten_words_def count_words_def word_char_def)
  have lookup: "check_email_exists (Returns []) \<noteq> (True, True)"
    by (simp add: check_email_exists_def)
  have body: "get_email_body (plain_message ''ann@example.org'' s) = Inr s" for s
    by (simp add: get_email_body_def plain_message_def b64decode_utf8_def)
  have post: "post_and_read (Returns (ok_response [(''ai'', 1)])) = (Some 1, Some 0)"
    by (simp add: post_and_read_def ok_response_def scores_of_def dict_get_def)
  have a: "process_messages (state_with 90 100)
         (new_item ''m0'' eleven_words (Returns (ok_response [(''ai'', 1)])) # two_messages)
       = (Break, (state_with 90 100)\<lparr>trace := [(''m0'', StoreSelect), (''m0'', GmailGet)]\<rparr>)"
    using quota_boundary
            [of "state_with 90 100"
                "new_item ''m0'' eleven_words (Returns (ok_response [(''ai'', 1)]))"
                "plain_message ''ann@example.org'' eleven_words" eleven_words two_messages]
      c11 lookup body
    by (simp add: new_item_def state_with_def)
  have b: "word_count (usage_tracker (snd (process_item (state_with 90 100)
         (new_item ''m0'' ten_words (Returns (ok_response [(''ai'', 1)])))))) = 100
   \<and> (''m0'', GPTZeroPost ten_words)
         \<in> set (trace (snd (process_item (state_with 90 100)
               (new_item ''m0'' ten_words (Returns (ok_response [(''ai'', 1)]))))))
   \<and> stats (snd (process_item (state_with 90 100)
         (new_item ''m0'' ten_words (Returns (ok_response [(''ai'', 1)])))))
       = \<lparr>processed = 1, skipped_existing = 0, skipped_rate_limit = 0, errors = 0\<rparr>"
    using quota_boundary
            [of "state_with 90 100"
                "new_item ''m0'' ten_words (Returns (ok_response [(''ai'', 1)]))"
                "plain_message ''ann@example.org'' ten_words" ten_words]
      c10 lookup body post
    by (simp add: new_item_def state_with_def)
  from c11 a c10 b show ?thesis by blast
qed

subsection \<open>Messages that already have their scores\<close>

lemma process_item_trace:
  "\<exists>evs. trace (snd (process_item st it)) = trace st @ map (Pair (item_id it)) evs"
proof (rule process_item_cases [where it=it and st=st], goal_cases existing fetch_raises body_raises empty_body overshoot zero_limit scoring)
  case existing
  then have "trace (snd (process_item st it)) = trace st @ map (Pair (item_id it)) [StoreSelect]"
    by (simp add: process_item_existing count_skipped_existing_def emit_def)
  then show ?case by blast
next
  case fetch_raises
  then have "trace (snd (process_item st it)) = trace st @ map (Pair (item_id it)) [StoreSelect, GmailGet]"
    by (simp add: process_item_fetch_raises count_errors_def emit_def)
  then show ?case by blast
next
  case (body_raises msg e)
  then have "trace (snd (process_item st it)) = trace st @ map (Pair (item_id it)) [StoreSelect, GmailGet]"
    by (simp add: process_item_body_raises count_errors_def emit_def)
  then show ?case by blast
next
  case (empty_body msg)
  then have "trace (snd (process_item st it)) = trace st @ map (Pair (item_id it)) [StoreSelect, GmailGet]"
    by (simp add: process_item_empty_body count_errors_def emit_def)
  then show ?case by blast
next
  case (overshoot msg s)
  then have "trace (snd (process_item st it)) = trace st @ map (Pair (item_id it)) [StoreSelect, GmailGet]"
    by (simp add: process_item_overshoot emit_def)
  then show ?case by blast
next
  case (zero_limit msg s)
  then have "trace (snd (process_item st it)) = trace st @ map (Pair (item_id it))
       [StoreSelect, GmailGet, AddUsage (snd (add_usage s (usage_tracker st)))]"
    by (simp add: process_item_zero_limit count_errors_def emit_def)
  then show ?case by blast
next
  case (scoring msg s)
  then have "\<exists>email. trace (snd (process_item st it)) = trace st @ map (Pair (item_id it))
       [StoreSelect, GmailGet, AddUsage (snd (add_usage s (usage_tracker st))), GPTZeroPost s,
        StoreUpsert email, Sleep]"
    by (simp add: process_item_scoring Let_def split_beta)
  then show ?case by blast
qed

lemma filter_other_id:
  "i \<noteq> m \<Longrightarrow> filter (\<lambda>(j, e). j = m \<and> P e) (map (Pair i) evs) = []"
  by (induction evs) simp_all

lemma process_item_existing_state:
  assumes "check_email_exists (store_select it) = (True, True)"
  shows "process_item st it =
           (Continue,
            st\<lparr>stats := (stats st)\<lparr>skipped_existing := skipped_existing (stats st) + 1\<rparr>,
               trace := trace st @ [(item_id it, StoreSelect)]\<rparr>)"
  using assms
  by (simp add: process_item_existing both_iff count_skipped_existing_def emit_def)

lemma process_messages_scored_trace:
  assumes "\<forall>it \<in> set items. item_id it = m \<longrightarrow> check_email_exists (store_select it) = (True, True)"
  shows "filter (\<lambda>(i, e). i = m \<and> e \<noteq> StoreSelect) (trace (snd (process_messages st items)))
           = filter (\<lambda>(i, e). i = m \<and> e \<noteq> StoreSelect) (trace st)"
  using assms
proof (induction items arbitrary: st)
  case Nil
  then show ?case by simp
next
  case (Cons it items)
  obtain f st1 where p: "process_item st it = (f, st1)" by (cases "process_item st it")
  have step: "filter (\<lambda>(i, e). i = m \<and> e \<noteq> StoreSelect) (trace st1)
                = filter (\<lambda>(i, e). i = m \<and> e \<noteq> StoreSelect) (trace st)"
  proof (cases "item_id it = m")
    case True
    with Cons.prems have "check_email_exists (store_select it) = (True, True)" by simp
    from process_item_existing_state [OF this, of st] p True show ?thesis by auto
  next
    case False
    from process_item_trace [of st it] p obtain evs
      where "trace st1 = trace st @ map (Pair (item_id it)) evs" by auto
    with False show ?thesis by (simp add: filter_other_id)
  qed
  from Cons.prems have rest: "\<forall>it \<in> set items. item_id it = m \<longrightarrow> check_email_exists (store_select it) = (True, True)"
    by simp
  show ?case
  proof (cases f)
    case Continue
    with p Cons.IH [OF rest, of st1] step show ?thesis by simp
  next
    case Break
    with p step show ?thesis by simp
  qed
qed

text \<open>
  C4. A message that the store reports as existing with both scores is skipped: the
  iteration does nothing but the lookup, counts the message as skipped (existing) and
  goes on. Over a run: when every entry of the list with the id \<open>m\<close> is reported so, the
  log of the run gains no entry for \<open>m\<close> other than lookups, hence no fetch, no charge, no
  request to the classifier and no upsert for \<open>m\<close>.
\<close>

theorem scored_identity_never_classified:
  "(check_email_exists (store_select it) = (True, True) \<longrightarrow>
      process_item st it =
        (Continue,
         st\<lparr>stats := (stats st)\<lparr>skipped_existing := skipped_existing (stats st) + 1\<rparr>,
            trace := trace st @ [(item_id it, StoreSelect)]\<rparr>))
   \<and> ((\<forall>it \<in> set items. item_id it = m \<longrightarrow> check_email_exists (store_select it) = (True, True)) \<longrightarrow>
        filter (\<lambda>(i, e). i = m \<and> e \<noteq> StoreSelect) (trace (snd (process_messages st items)))
          = filter (\<lambda>(i, e). i = m \<and> e \<noteq> StoreSelect) (trace st))"
  using process_item_existing_state [of it st] process_messages_scored_trace [of items m st]
  by blast

theorem scored_identity_never_classified_witness:
  "check_email_exists (store_select (scored_item ''m0'')) = (True, True)
   \<and> fst (process_item initial_state (scored_item ''m0'')) = Continue
   \<and> stats (snd (process_item initial_state (scored_item ''m0'')))
       = \<lparr>processed = 0, skipped_existing = 1, skipped_rate_limit = 0, errors = 0\<rparr>
   \<and> trace (snd (process_item initial_state (scored_item ''m0''))) = [(''m0'', StoreSelect)]
   \<and> filter (\<lambda>(i, e). i = ''m0'' \<and> e \<noteq> StoreSelect)
        (trace (snd (process_messages initial_state (scored_item ''m0'' # two_messages)))) = []"
proof -
  have s: "check_email_exists (store_select (scored_item ''m0'')) = (True, True)"
    by (simp add: scored_item_def new_item_def scored_row_def check_email_exists_def)
  have ids: "\<forall>it \<in> set (scored_item ''m0'' # two_messages).
               item_id it = ''m0'' \<longrightarrow> check_email_exists (store_select it) = (True, True)"
    using s by (simp add: two_messages_def new_item_def scored_item_def)
  have empty: "trace initial_state = []"
    by (simp add: initial_state_def)
  from scored_identity_never_classified
            [of "scored_item ''m0''" initial_state "scored_item ''m0'' # two_messages" "''m0''"]
      s ids
  have a: "process_item initial_state (scored_item ''m0'')
        = (Continue,
           initial_state\<lparr>stats := (stats initial_state)\<lparr>skipped_existing := skipped_existing (stats initial_state) + 1\<rparr>,
                  trace := trace initial_state @ [(item_id (scored_item ''m0''), StoreSelect)]\<rparr>)"
    and b: "filter (\<lambda>(i, e). i = ''m0'' \<and> e \<noteq> StoreSelect)
        (trace (snd (process_messages initial_state (scored_item ''m0'' # two_messages))))
         = filter (\<lambda>(i, e). i = ''m0'' \<and> e \<noteq> StoreSelect) (trace initial_state)"
    by blast+
  have a1: "fst (process_item initial_state (scored_item ''m0'')) = Continue"
    by (simp only: a fst_conv)
  have a2: "stats (snd (process_item initial_state (scored_item ''m0'')))
       = \<lparr>processed = 0, skipped_existing = 1, skipped_rate_limit = 0, errors = 0\<rparr>"
    unfolding a by (simp add: initial_state_def)
  have a3: "trace (snd (process_item initial_state (scored_item ''m0''))) = [(''m0'', StoreSelect)]"
    unfolding a by (simp add: initial_state_def scored_item_def new_item_def)
  have b1: "filter (\<lambda>(i, e). i = ''m0'' \<and> e \<noteq> StoreSelect)
        (trace (snd (process_messages initial_state (scored_item ''m0'' # two_messages)))) = []"
    unfolding b empty by (simp only: filter.simps)
  from s a1 a2 a3 b1 show ?thesis by blast
qed

subsection \<open>The run stops at the limit\<close>

lemma count_words_words_text: "count_words (words_text n) = int n"
proof -
  have "word_runs False (concat (replicate n ''a '')) = n"
    by (induction n) (simp_all add: word_char_def)
  then show ?thesis by (simp add: count_words_def words_text_def)
qed

lemma words_text_nonempty: "0 < n \<Longrightarrow> words_text n \<noteq> []"
  by (cases n) (simp_all add: words_text_def)

lemma get_email_body_plain: "get_email_body (plain_message frm s) = Inr s"
  by (simp add: get_email_body_def plain_message_def b64decode_utf8_def)

lemma two_messages_loop:
  "process_messages initial_state two_messages =
    (Continue, 
     \<lparr>usage_tracker = \<lparr>word_count = 7, word_limit = 300000, emails_processed = 2\<rparr>,
      stats = \<lparr>processed = 1, skipped_existing = 0, skipped_rate_limit = 1, errors = 0\<rparr>,
      trace = snd (main \<lparr>services = Returns (), messages_list = Returns two_messages\<rparr>)\<rparr>)"
  unfolding two_messages_run
  by (simp add: two_messages_def sample_defs eval_defs Let_def del: not_None_eq)

text \<open>
  C5. In a run of \<^verbatim>\<open>main\<close>, let the loop have gone through the messages \<open>before\<close> and
  reach a message that gets to the quota check with a body whose words would take the
  count over the limit. Then the run ends there: \<^verbatim>\<open>main\<close> does not raise, it prints the
  counters and the usage statistics as they were before this message, and whatever
  follows in the list is not touched (the log ends with the lookup and the fetch of this
  message).
\<close>

theorem overshoot_halts_run:
  assumes "services w = Returns ()" and "messages_list w = Returns (before @ it # rest)"
    and "process_messages initial_state before = (Continue, st)"
    and "check_email_exists (store_select it) \<noteq> (True, True)"
    and "gmail_get it = Returns msg" and "get_email_body msg = Inr s"
    and "word_count (usage_tracker st) + count_words s > word_limit (usage_tracker st)"
  shows "\<exists>final. get_stats (usage_tracker st) = Inr final
           \<and> main w = (Completed (stats st) final,
                        trace st @ [(item_id it, StoreSelect), (item_id it, GmailGet)])"
proof -
  have unscored: "\<not> snd (check_email_exists (store_select it))"
    using assms(4) by (simp add: not_both_iff)
  have inv: "within_limit st"
    using process_messages_within_limit [OF within_limit_initial, of before] assms(3) by simp
  have limit: "word_limit (usage_tracker st) = default_limit"
    using process_messages_word_limit [of initial_state before] assms(3)
    by (simp add: initial_state_def UsageTracker_init_def)
  have ne: "s \<noteq> []"
  proof
    assume "s = []"
    with assms(7) inv show False by (simp add: within_limit_def count_words_Nil)
  qed
  have step: "process_item st it = (Break, emit (item_id it) [StoreSelect, GmailGet] st)"
    using unscored assms(5,6) ne assms(7) by (rule process_item_overshoot)
  have loop: "process_messages initial_state (before @ it # rest)
                = (Break, emit (item_id it) [StoreSelect, GmailGet] st)"
    using assms(3) step by (simp add: process_messages_append)
  obtain final where final: "get_stats (usage_tracker st) = Inr final"
    using limit by (simp add: get_stats_def default_limit_def)
  have "main w = (Completed (stats st) final,
                  trace st @ [(item_id it, StoreSelect), (item_id it, GmailGet)])"
    using assms(1,2) loop final by (simp add: main_def emit_def)
  with final show ?thesis by blast
qed

theorem overshoot_halts_run_witness:
  "main overshoot_world =
    (Completed
       \<lparr>processed = 1, skipped_existing = 0, skipped_rate_limit = 1, errors = 0\<rparr>
       \<lparr>total_words = 7, percentage_used = 7 / 3000, words_remaining = 299993,
          stats_emails_processed = 2, average_words_per_email = 7 / 2\<rparr>,
     snd (main \<lparr>services = Returns (), messages_list = Returns two_messages\<rparr>)
       @ [(''m3'', StoreSelect), (''m3'', GmailGet)])"
proof -
  let ?st = "\<lparr>usage_tracker = \<lparr>word_count = 7, word_limit = 300000, emails_processed = 2\<rparr>,
      stats = \<lparr>processed = 1, skipped_existing = 0, skipped_rate_limit = 1, errors = 0\<rparr>,
      trace = snd (main \<lparr>services = Returns (), messages_list = Returns two_messages\<rparr>)\<rparr>"
  have h1: "services overshoot_world = Returns ()"
    by (simp add: overshoot_world_def)
  have h2: "messages_list overshoot_world
              = Returns (two_messages @ long_item # [new_item ''m4'' ''never read'' Raises])"
    by (simp add: overshoot_world_def)
  have h4: "check_email_exists (store_select long_item) \<noteq> (True, True)"
    by (simp add: long_item_def new_item_def check_email_exists_def)
  have h5: "gmail_get long_item = Returns (plain_message ''ann@example.org'' (words_text 300000))"
    by (simp add: long_item_def new_item_def)
  have h7: "word_count (usage_tracker ?st) + count_words (words_text 300000)
              > word_limit (usage_tracker ?st)"
    by (simp add: count_words_words_text)
  from overshoot_halts_run [OF h1 h2 two_messages_loop h4 h5 get_email_body_plain h7]
  obtain final where "get_stats (usage_tracker ?st) = Inr final"
    and "main overshoot_world = (Completed (stats ?st) final,
                        trace ?st @ [(item_id long_item, StoreSelect), (item_id long_item, GmailGet)])"
    by blast
  then show ?thesis
    by (simp add: get_stats_def long_item_def new_item_def)
qed

subsection \<open>What the classifier answers\<close>

lemma dict_get_missing: "map_of d k = None \<Longrightarrow> dict_get d k dflt = dflt"
  by (simp add: dict_get_def)

lemma post_and_read_ok:
  assumes "status_code response = 200" and "scores_of response = Inr scores"
  shows "post_and_read (Returns response)
           = (Some (dict_get scores ''ai'' 0), Some (dict_get scores ''human'' 0))"
  using assms by (simp add: post_and_read_def)

lemma post_and_read_failed:
  assumes "post = Raises
           \<or> (\<exists>r. post = Returns r \<and> (status_code r \<noteq> 200 \<or> (\<exists>e. scores_of r = Inl e)))"
  shows "post_and_read post = (None, None)"
  using assms by (auto simp: post_and_read_def)

text \<open>
  C10. When the classifier answers with status 200 and the body holds
  \<^verbatim>\<open>class_probabilities\<close>, the pair that is read has two numbers, never \<^verbatim>\<open>None\<close>: a key
  \<^verbatim>\<open>ai\<close> or \<^verbatim>\<open>human\<close> that is missing gives 0. A message that gets to the scoring with
  such an answer is counted as processed, and the record that is upserted carries both
  scores.
\<close>

theorem missing_score_defaults_to_zero:
  assumes "gptzero_post it = Returns response" and "status_code response = 200"
    and "scores_of response = Inr scores"
  shows "post_and_read (gptzero_post it)
           = (Some (dict_get scores ''ai'' 0), Some (dict_get scores ''human'' 0))
       \<and> (map_of scores ''ai'' = None \<longrightarrow> dict_get scores ''ai'' 0 = 0)
       \<and> (map_of scores ''human'' = None \<longrightarrow> dict_get scores ''human'' 0 = 0)
       \<and> (check_email_exists (store_select it) \<noteq> (True, True)
            \<and> gmail_get it = Returns msg \<and> get_email_body msg = Inr s \<and> s \<noteq> []
            \<and> word_count (usage_tracker st) + count_words s \<le> word_limit (usage_tracker st)
            \<and> word_limit (usage_tracker st) \<noteq> 0
          \<longrightarrow> stats (snd (process_item st it))
                 = (stats st)\<lparr>processed := processed (stats st) + 1\<rparr>
              \<and> (item_id it,
                  StoreUpsert \<lparr>message_id = item_id it, sender = get_sender (headers (payload msg)),
                               body = s, gpt_zero_ai = Some (dict_get scores ''ai'' 0),
                               gpt_zero_human = Some (dict_get scores ''human'' 0)\<rparr>)
                 \<in> set (trace (snd (process_item st it))))"
proof -
  have read: "post_and_read (gptzero_post it)
           = (Some (dict_get scores ''ai'' 0), Some (dict_get scores ''human'' 0))"
    using assms by (simp add: post_and_read_ok)
  have item: "stats (snd (process_item st it))
                 = (stats st)\<lparr>processed := processed (stats st) + 1\<rparr>
              \<and> (item_id it,
                  StoreUpsert \<lparr>message_id = item_id it, sender = get_sender (headers (payload msg)),
                               body = s, gpt_zero_ai = Some (dict_get scores ''ai'' 0),
                               gpt_zero_human = Some (dict_get scores ''human'' 0)\<rparr>)
                 \<in> set (trace (snd (process_item st it)))"
    if "check_email_exists (store_select it) \<noteq> (True, True)"
      and "gmail_get it = Returns msg" and "get_email_body msg = Inr s" and "s \<noteq> []"
      and "word_count (usage_tracker st) + count_words s \<le> word_limit (usage_tracker st)"
      and "word_limit (usage_tracker st) \<noteq> 0"
  proof -
    from that(1) have "\<not> snd (check_email_exists (store_select it))"
      by (simp add: not_both_iff)
    from process_item_scoring [OF this that(2-6), of ] show ?thesis
      by (simp add: read Let_def)
  qed
  from read item show ?thesis
    by (simp add: dict_get_missing)
qed

theorem missing_score_defaults_to_zero_witness:
  "post_and_read (gptzero_post human_only_item) = (Some 0, Some (3 / 10))
   \<and> stats (snd (process_item initial_state human_only_item))
       = \<lparr>processed = 1, skipped_existing = 0, skipped_rate_limit = 0, errors = 0\<rparr>
   \<and> (''m5'', StoreUpsert \<lparr>message_id = ''m5'', sender = ''ann@example.org'',
                             body = ''hello big world'', gpt_zero_ai = Some 0,
                             gpt_zero_human = Some (3 / 10)\<rparr>)
        \<in> set (trace (snd (process_item initial_state human_only_item)))"
proof -
  have h1: "gptzero_post human_only_item = Returns (ok_response [(''human'', 3 / 10)])"
    by (simp add: human_only_item_def new_item_def)
  have h2: "status_code (ok_response [(''human'', 3 / 10)]) = 200"
    by (simp add: ok_response_def)
  have h3: "scores_of (ok_response [(''human'', 3 / 10)]) = Inr [(''human'', 3 / 10)]"
    by (simp add: ok_response_def scores_of_def)
  have g: "check_email_exists (store_select human_only_item) \<noteq> (True, True)"
    "gmail_get human_only_item = Returns (plain_message ''ann@example.org'' ''hello big world'')"
    "word_count (usage_tracker initial_state) + count_words ''hello big world''
       \<le> word_limit (usage_tracker initial_state)"
    "word_limit (usage_tracker initial_state) \<noteq> 0"
    by (simp_all add: human_only_item_def new_item_def check_email_exists_def initial_state_def
          UsageTracker_init_def default_limit_def count_words_def word_char_def)
  have d: "dict_get [(''human'', 3 / 10)] ''ai'' 0 = 0"
    "dict_get [(''human'', 3 / 10)] ''human'' 0 = 3 / 10"
    by (simp_all add: dict_get_def)
  have sndr: "get_sender (headers (payload (plain_message ''ann@example.org'' ''hello big world'')))
               = ''ann@example.org''"
    by (simp add: plain_message_def lower_def lower_char_def)
  have zero: "stats initial_state\<lparr>processed := processed (stats initial_state) + 1\<rparr>
                = \<lparr>processed = 1, skipped_existing = 0, skipped_rate_limit = 0, errors = 0\<rparr>"
    by (simp add: initial_state_def)
  have id: "item_id human_only_item = ''m5''"
    by (simp add: human_only_item_def new_item_def)
  from missing_score_defaults_to_zero
         [OF h1 h2 h3, of "plain_message ''ann@example.org'' ''hello big world''"
            "''hello big world''" initial_state]
    g get_email_body_plain [of "''ann@example.org''" "''hello big world''"]
  show ?thesis
    unfolding d sndr zero id by simp
qed

subsection \<open>A lookup that fails\<close>

lemma score_and_persist_store_select:
  "score_and_persist st (it\<lparr>store_select := r\<rparr>) h sndr s = score_and_persist st it h sndr s"
  by (simp add: score_and_persist_def Let_def
        cong del: sum.case_cong_weak prod.case_cong_weak if_weak_cong)

lemma process_item_lookup_raises:
  "process_item st (it\<lparr>store_select := Raises\<rparr>) = process_item st (it\<lparr>store_select := Returns []\<rparr>)"
  by (simp add: process_item_def item_body_def score_and_persist_store_select
        check_email_exists_def Let_def
        cong del: sum.case_cong_weak prod.case_cong_weak call.case_cong_weak if_weak_cong)

text \<open>
  C9. When the lookup in the store raises, \<^verbatim>\<open>check_email_exists\<close> gives
  \<^verbatim>\<open>(False, False)\<close>, and the iteration is the one of a message that the store does not
  know: the two have the same result. So a message whose fetch returns a body within the
  quota goes the whole way (fetch, charge, request to the classifier, upsert, sleep),
  whatever the store holds for it, and the failure of the lookup adds nothing to the
  error counter.
\<close>

theorem lookup_failure_treated_as_new:
  "check_email_exists Raises = (False, False)
   \<and> process_item st (it\<lparr>store_select := Raises\<rparr>)
       = process_item st (it\<lparr>store_select := Returns []\<rparr>)
   \<and> (gmail_get it = Returns msg \<and> get_email_body msg = Inr s \<and> s \<noteq> []
        \<and> word_count (usage_tracker st) + count_words s \<le> word_limit (usage_tracker st)
        \<and> word_limit (usage_tracker st) \<noteq> 0
      \<longrightarrow> (\<exists>email. trace (snd (process_item st (it\<lparr>store_select := Raises\<rparr>)))
                     = trace st @ map (Pair (item_id it))
                         [StoreSelect, GmailGet, AddUsage (snd (add_usage s (usage_tracker st))),
                          GPTZeroPost s, StoreUpsert email, Sleep])
          \<and> errors (stats (snd (process_item st (it\<lparr>store_select := Raises\<rparr>))))
              = errors (stats st))"
proof -
  have a: "check_email_exists Raises = (False, False)"
    by (simp add: check_email_exists_def)
  have c: "(\<exists>email. trace (snd (process_item st (it\<lparr>store_select := Raises\<rparr>)))
                     = trace st @ map (Pair (item_id it))
                         [StoreSelect, GmailGet, AddUsage (snd (add_usage s (usage_tracker st))),
                          GPTZeroPost s, StoreUpsert email, Sleep])
          \<and> errors (stats (snd (process_item st (it\<lparr>store_select := Raises\<rparr>))))
              = errors (stats st)"
    if "gmail_get it = Returns msg" and "get_email_body msg = Inr s" and "s \<noteq> []"
      and "word_count (usage_tracker st) + count_words s \<le> word_limit (usage_tracker st)"
      and "word_limit (usage_tracker st) \<noteq> 0"
  proof -
    have u: "\<not> snd (check_email_exists (store_select (it\<lparr>store_select := Raises\<rparr>)))"
      by (simp add: a)
    have g: "gmail_get (it\<lparr>store_select := Raises\<rparr>) = Returns msg"
      using that(1) by simp
    from process_item_scoring [OF u g that(2-5)] show ?thesis
      by (simp add: Let_def split_beta)
  qed
  from a c process_item_lookup_raises [of st it] show ?thesis by blast
qed

theorem lookup_failure_treated_as_new_witness:
  "check_email_exists (store_select (scored_item ''m0'')) = (True, True)
   \<and> process_item initial_state ((scored_item ''m0'')\<lparr>store_select := Raises\<rparr>)
       = process_item initial_state ((scored_item ''m0'')\<lparr>store_select := Returns []\<rparr>)
   \<and> (''m0'', GPTZeroPost ''old news'')
        \<in> set (trace (snd (process_item initial_state ((scored_item ''m0'')\<lparr>store_select := Raises\<rparr>))))
   \<and> errors (stats (snd (process_item initial_state ((scored_item ''m0'')\<lparr>store_select := Raises\<rparr>)))) = 0"
proof -
  have s: "check_email_exists (store_select (scored_item ''m0'')) = (True, True)"
    by (simp add: scored_item_def new_item_def scored_row_def check_email_exists_def)
  have g: "gmail_get (scored_item ''m0'') = Returns (plain_message ''ann@example.org'' ''old news'')"
    "word_count (usage_tracker initial_state) + count_words ''old news''
       \<le> word_limit (usage_tracker initial_state)"
    "word_limit (usage_tracker initial_state) \<noteq> 0"
    "item_id (scored_item ''m0'') = ''m0''"
    "errors (stats initial_state) = 0"
    by (simp_all add: scored_item_def new_item_def initial_state_def
          UsageTracker_init_def default_limit_def count_words_def word_char_def)
  have h: "gmail_get (scored_item ''m0'') = Returns (plain_message ''ann@example.org'' ''old news'')
        \<and> get_email_body (plain_message ''ann@example.org'' ''old news'') = Inr ''old news''
        \<and> ''old news'' \<noteq> []
        \<and> word_count (usage_tracker initial_state) + count_words ''old news''
             \<le> word_limit (usage_tracker initial_state)
        \<and> word_limit (usage_tracker initial_state) \<noteq> 0"
    using g get_email_body_plain [of "''ann@example.org''" "''old news''"] by simp
  from lookup_failure_treated_as_new
         [of initial_state "scored_item ''m0''" "plain_message ''ann@example.org'' ''old news''"
             "''old news''"] h
  have b: "process_item initial_state ((scored_item ''m0'')\<lparr>store_select := Raises\<rparr>)
       = process_item initial_state ((scored_item ''m0'')\<lparr>store_select := Returns []\<rparr>)"
    and c: "\<exists>email. trace (snd (process_item initial_state ((scored_item ''m0'')\<lparr>store_select := Raises\<rparr>)))
                     = trace initial_state @ map (Pair (item_id (scored_item ''m0'')))
                         [StoreSelect, GmailGet,
                          AddUsage (snd (add_usage ''old news'' (usage_tracker initial_state))),
                          GPTZeroPost ''old news'', StoreUpsert email, Sleep]"
    and d: "errors (stats (snd (process_item initial_state ((scored_item ''m0'')\<lparr>store_select := Raises\<rparr>))))
             = errors (stats initial_state)"
    by blast+
  from c have c1: "(''m0'', GPTZeroPost ''old news'')
        \<in> set (trace (snd (process_item initial_state ((scored_item ''m0'')\<lparr>store_select := Raises\<rparr>))))"
    unfolding g(4) by auto
  from d have d1: "errors (stats (snd (process_item initial_state ((scored_item ''m0'')\<lparr>store_select := Raises\<rparr>)))) = 0"
    unfolding g(5) .
  from s b c1 d1 show ?thesis by blast
qed

subsection \<open>A classifier that fails\<close>

text \<open>
  C2, as the code has it. Let a message get to the request (the store does not report it
  as scored, the fetch returns a body that is not empty and within the quota, the limit
  is not 0), and let the request raise, or answer with a status other than 200, or with a
  body from which the probabilities cannot be read. Then the record is upserted without
  scores, the counter of skips (rate limit) goes up by one, the loop goes on, and the
  count of the tracker has grown by the words of the body: \<^verbatim>\<open>add_usage\<close> is called
  before the request, whatever its outcome.
\<close>

theorem classifier_failure_still_charged:
  assumes "check_email_exists (store_select it) \<noteq> (True, True)"
    and "gmail_get it = Returns msg" and "get_email_body msg = Inr s" and "s \<noteq> []"
    and "word_count (usage_tracker st) + count_words s \<le> word_limit (usage_tracker st)"
    and "word_limit (usage_tracker st) \<noteq> 0"
    and "gptzero_post it = Raises
         \<or> (\<exists>r. gptzero_post it = Returns r
                 \<and> (status_code r \<noteq> 200 \<or> (\<exists>e. scores_of r = Inl e)))"
  shows "process_item st it =
           (Continue,
            \<lparr>usage_tracker = snd (add_usage s (usage_tracker st)),
             stats = (stats st)\<lparr>skipped_rate_limit := skipped_rate_limit (stats st) + 1\<rparr>,
             trace = trace st @ map (Pair (item_id it))
                       [StoreSelect, GmailGet, AddUsage (snd (add_usage s (usage_tracker st))),
                        GPTZeroPost s,
                        StoreUpsert \<lparr>message_id = item_id it,
                                     sender = get_sender (headers (payload msg)), body = s,
                                     gpt_zero_ai = None, gpt_zero_human = None\<rparr>,
                        Sleep]\<rparr>)
       \<and> word_count (usage_tracker (snd (process_item st it)))
           = word_count (usage_tracker st) + count_words s"
proof -
  have u: "\<not> snd (check_email_exists (store_select it))"
    using assms(1) by (simp add: not_both_iff)
  have f: "post_and_read (gptzero_post it) = (None, None)"
    using assms(7) by (rule post_and_read_failed)
  from process_item_scoring [OF u assms(2-6)] show ?thesis
    by (simp add: f Let_def add_usage_word_count)
qed

theorem classifier_failure_still_charged_witness:
  "process_item initial_state rate_limited_item =
     (Continue,
      \<lparr>usage_tracker = \<lparr>word_count = 4, word_limit = 300000, emails_processed = 1\<rparr>,
       stats = \<lparr>processed = 0, skipped_existing = 0, skipped_rate_limit = 1, errors = 0\<rparr>,
       trace = [(''m6'', StoreSelect), (''m6'', GmailGet),
                (''m6'', AddUsage \<lparr>word_count = 4, word_limit = 300000, emails_processed = 1\<rparr>),
                (''m6'', GPTZeroPost ''see you soon, Bob''),
                (''m6'', StoreUpsert \<lparr>message_id = ''m6'', sender = ''ann@example.org'',
                                       body = ''see you soon, Bob'', gpt_zero_ai = None,
                                       gpt_zero_human = None\<rparr>),
                (''m6'', Sleep)]\<rparr>)"
proof -
  have g: "check_email_exists (store_select rate_limited_item) \<noteq> (True, True)"
    "gmail_get rate_limited_item = Returns (plain_message ''ann@example.org'' ''see you soon, Bob'')"
    "''see you soon, Bob'' \<noteq> []"
    "word_count (usage_tracker initial_state) + count_words ''see you soon, Bob''
       \<le> word_limit (usage_tracker initial_state)"
    "word_limit (usage_tracker initial_state) \<noteq> 0"
    by (simp_all add: rate_limited_item_def new_item_def check_email_exists_def initial_state_def
          UsageTracker_init_def default_limit_def count_words_def word_char_def)
  have p: "gptzero_post rate_limited_item = Raises
         \<or> (\<exists>r. gptzero_post rate_limited_item = Returns r
                 \<and> (status_code r \<noteq> 200 \<or> (\<exists>e. scores_of r = Inl e)))"
    by (simp add: rate_limited_item_def new_item_def)
  have v: "snd (add_usage ''see you soon, Bob'' (usage_tracker initial_state))
             = \<lparr>word_count = 4, word_limit = 300000, emails_processed = 1\<rparr>"
    "stats initial_state\<lparr>skipped_rate_limit := skipped_rate_limit (stats initial_state) + 1\<rparr>
       = \<lparr>processed = 0, skipped_existing = 0, skipped_rate_limit = 1, errors = 0\<rparr>"
    "trace initial_state = []"
    "item_id rate_limited_item = ''m6''"
    "get_sender (headers (payload (plain_message ''ann@example.org'' ''see you soon, Bob'')))
       = ''ann@example.org''"
    by (simp_all add: add_usage_def initial_state_def UsageTracker_init_def default_limit_def
          count_words_def word_char_def rate_limited_item_def new_item_def plain_message_def
          lower_def lower_char_def)
  from classifier_failure_still_charged
         [OF g(1,2) get_email_body_plain g(3,4,5) p]
  show ?thesis
    unfolding v by simp
qed

text \<open>
  C2, as the claim has it, says that the count is unchanged by such a message. For the
  message above, whose request meets status 429, the count goes from 0 to 4.
\<close>

theorem usage_unchanged_on_rate_limit_counterexample:
  "post_and_read (gptzero_post rate_limited_item) = (None, None)
   \<and> word_count (usage_tracker initial_state) = 0
   \<and> word_count (usage_tracker (snd (process_item initial_state rate_limited_item))) = 4"
  by (simp add: rate_limited_item_def sample_defs eval_defs Let_def del: not_None_eq)

subsection \<open>Failures within one iteration\<close>

lemma process_item_Break:
  assumes "fst (process_item st it) = Break"
  shows "\<exists>msg s. check_email_exists (store_select it) \<noteq> (True, True)
            \<and> gmail_get it = Returns msg \<and> get_email_body msg = Inr s \<and> s \<noteq> []
            \<and> word_limit (usage_tracker st) < word_count (usage_tracker st) + count_words s"
proof (rule process_item_cases [where it=it and st=st], goal_cases existing fetch_raises body_raises empty_body overshoot zero_limit scoring)
  case existing
  with assms show ?case by (simp add: process_item_existing)
next
  case fetch_raises
  with assms show ?case by (simp add: process_item_fetch_raises)
next
  case (body_raises msg e)
  with assms show ?case by (simp add: process_item_body_raises)
next
  case (empty_body msg)
  with assms show ?case by (simp add: process_item_empty_body)
next
  case (overshoot msg s)
  then show ?case by (auto simp: not_both_iff)
next
  case (zero_limit msg s)
  with assms show ?case by (simp add: process_item_zero_limit)
next
  case (scoring msg s)
  with assms show ?case by (simp add: process_item_scoring Let_def split_beta)
qed

lemma process_messages_step:
  "fst (process_item st it) = Continue \<Longrightarrow>
     process_messages st (it # rest) = process_messages (snd (process_item st it)) rest"
  by (cases "process_item st it") simp

lemma score_and_persist_store_upsert:
  "score_and_persist st (it\<lparr>store_upsert := r\<rparr>) h sndr s = score_and_persist st it h sndr s"
  by (simp add: score_and_persist_def Let_def
        cong del: sum.case_cong_weak prod.case_cong_weak if_weak_cong)

lemma process_item_upsert_raises:
  "process_item st (it\<lparr>store_upsert := Raises\<rparr>) = process_item st (it\<lparr>store_upsert := Returns ()\<rparr>)"
  by (simp add: process_item_def item_body_def score_and_persist_store_upsert Let_def
        cong del: sum.case_cong_weak prod.case_cong_weak call.case_cong_weak if_weak_cong)

lemma process_item_empty_body_state:
  assumes "check_email_exists (store_select it) \<noteq> (True, True)"
    and "gmail_get it = Returns msg" and "get_email_body msg = Inr []"
  shows "process_item st it =
           (Continue,
            st\<lparr>stats := (stats st)\<lparr>errors := errors (stats st) + 1\<rparr>,
               trace := trace st @ [(item_id it, StoreSelect), (item_id it, GmailGet)]\<rparr>)"
proof -
  have "\<not> snd (check_email_exists (store_select it))"
    using assms(1) by (simp add: not_both_iff)
  from process_item_empty_body [OF this assms(2,3)] show ?thesis
    by (simp add: count_errors_def emit_def)
qed

lemma process_item_classifier_failed:
  assumes "check_email_exists (store_select it) \<noteq> (True, True)"
    and "gmail_get it = Returns msg" and "get_email_body msg = Inr s" and "s \<noteq> []"
    and "word_count (usage_tracker st) + count_words s \<le> word_limit (usage_tracker st)"
    and "word_limit (usage_tracker st) \<noteq> 0"
    and "gptzero_post it = Raises
         \<or> (\<exists>r. gptzero_post it = Returns r
                 \<and> (status_code r \<noteq> 200 \<or> (\<exists>e. scores_of r = Inl e)))"
  shows "fst (process_item st it) = Continue
       \<and> stats (snd (process_item st it))
           = (stats st)\<lparr>skipped_rate_limit := skipped_rate_limit (stats st) + 1\<rparr>"
proof -
  have u: "\<not> snd (check_email_exists (store_select it))"
    using assms(1) by (simp add: not_both_iff)
  have f: "post_and_read (gptzero_post it) = (None, None)"
    using assms(7) by (rule post_and_read_failed)
  from process_item_scoring [OF u assms(2-6)] show ?thesis
    by (simp add: f Let_def)
qed

text \<open>
  C6, as the code has it. No failure within an iteration ends the loop: an iteration
  leaves the loop only at the quota check, with a fetched body that would take the count
  over the limit, and otherwise the loop goes on with the next message. An empty body is
  counted as an error, a classifier that fails as a skip (rate limit). A lookup that
  raises and an upsert that raises are caught inside \<^verbatim>\<open>check_email_exists\<close> and
  \<^verbatim>\<open>upsert_email\<close> and are not counted: the iteration is the same as with a lookup that
  finds no row, and the same as with an upsert that succeeds.
\<close>

theorem item_failures_keep_the_loop_going:
  "(fst (process_item st it) = Break \<longrightarrow>
      (\<exists>msg s. check_email_exists (store_select it) \<noteq> (True, True)
          \<and> gmail_get it = Returns msg \<and> get_email_body msg = Inr s \<and> s \<noteq> []
          \<and> word_limit (usage_tracker st) < word_count (usage_tracker st) + count_words s))
   \<and> (fst (process_item st it) = Continue \<longrightarrow>
        process_messages st (it # rest) = process_messages (snd (process_item st it)) rest)
   \<and> (check_email_exists (store_select it) \<noteq> (True, True)
        \<and> gmail_get it = Returns msg \<and> get_email_body msg = Inr []
      \<longrightarrow> process_item st it =
            (Continue,
             st\<lparr>stats := (stats st)\<lparr>errors := errors (stats st) + 1\<rparr>,
                trace := trace st @ [(item_id it, StoreSelect), (item_id it, GmailGet)]\<rparr>))
   \<and> (check_email_exists (store_select it) \<noteq> (True, True)
        \<and> gmail_get it = Returns msg \<and> get_email_body msg = Inr s \<and> s \<noteq> []
        \<and> word_count (usage_tracker st) + count_words s \<le> word_limit (usage_tracker st)
        \<and> word_limit (usage_tracker st) \<noteq> 0
        \<and> (gptzero_post it = Raises
             \<or> (\<exists>r. gptzero_post it = Returns r
                     \<and> (status_code r \<noteq> 200 \<or> (\<exists>e. scores_of r = Inl e))))
      \<longrightarrow> fst (process_item st it) = Continue
          \<and> stats (snd (process_item st it))
              = (stats st)\<lparr>skipped_rate_limit := skipped_rate_limit (stats st) + 1\<rparr>)
   \<and> process_item st (it\<lparr>store_select := Raises\<rparr>)
       = process_item st (it\<lparr>store_select := Returns []\<rparr>)
   \<and> process_item st (it\<lparr>store_upsert := Raises\<rparr>)
       = process_item st (it\<lparr>store_upsert := Returns ()\<rparr>)"
  using process_item_Break [of st it] process_messages_step [of st it rest]
    process_item_empty_body_state [of it msg st]
    process_item_classifier_failed [of it msg s st]
    process_item_lookup_raises [of st it] process_item_upsert_raises [of st it]
  by blast

theorem item_failures_keep_the_loop_going_witness:
  "fst (process_item (state_with 90 100) (new_item ''m0'' eleven_words Raises)) = Break
   \<and> (\<exists>msg s. gmail_get (new_item ''m0'' eleven_words Raises) = Returns msg
          \<and> get_email_body msg = Inr s
          \<and> word_limit (usage_tracker (state_with 90 100))
               < word_count (usage_tracker (state_with 90 100)) + count_words s)
   \<and> fst (process_item initial_state rate_limited_item) = Continue
   \<and> process_messages initial_state (rate_limited_item # two_messages)
       = process_messages (snd (process_item initial_state rate_limited_item)) two_messages
   \<and> stats (snd (process_item initial_state rate_limited_item))
       = \<lparr>processed = 0, skipped_existing = 0, skipped_rate_limit = 1, errors = 0\<rparr>
   \<and> get_email_body (plain_message ''ann@example.org'' []) = Inr []
   \<and> fst (process_item initial_state empty_body_item) = Continue
   \<and> stats (snd (process_item initial_state empty_body_item))
       = \<lparr>processed = 0, skipped_existing = 0, skipped_rate_limit = 0, errors = 1\<rparr>
   \<and> process_item initial_state (failed_upsert_item\<lparr>store_upsert := Raises\<rparr>)
       = process_item initial_state (failed_upsert_item\<lparr>store_upsert := Returns ()\<rparr>)
   \<and> process_item initial_state (failed_upsert_item\<lparr>store_select := Raises\<rparr>)
       = process_item initial_state (failed_upsert_item\<lparr>store_select := Returns []\<rparr>)"
proof -
  let ?long = "new_item ''m0'' eleven_words Raises"
  have brk: "fst (process_item (state_with 90 100) ?long) = Break"
    by (simp add: eleven_words_def sample_defs eval_defs Let_def del: not_None_eq)
  from item_failures_keep_the_loop_going [of "state_with 90 100" ?long] brk
  have a: "\<exists>msg s. gmail_get ?long = Returns msg \<and> get_email_body msg = Inr s
          \<and> word_limit (usage_tracker (state_with 90 100))
               < word_count (usage_tracker (state_with 90 100)) + count_words s"
    by blast
  have new: "check_email_exists (store_select (new_item mid s post)) \<noteq> (True, True)"
    for mid s post
    by (simp add: new_item_def check_email_exists_def)
  have g: "gmail_get rate_limited_item
             = Returns (plain_message ''ann@example.org'' ''see you soon, Bob'')"
    "''see you soon, Bob'' \<noteq> []"
    "word_count (usage_tracker initial_state) + count_words ''see you soon, Bob''
       \<le> word_limit (usage_tracker initial_state)"
    "word_limit (usage_tracker initial_state) \<noteq> 0"
    "gptzero_post rate_limited_item = Raises
         \<or> (\<exists>r. gptzero_post rate_limited_item = Returns r
                 \<and> (status_code r \<noteq> 200 \<or> (\<exists>e. scores_of r = Inl e)))"
    by (simp_all add: rate_limited_item_def new_item_def initial_state_def
          UsageTracker_init_def default_limit_def count_words_def word_char_def)
  have zero: "stats initial_state
                = \<lparr>processed = 0, skipped_existing = 0, skipped_rate_limit = 0, errors = 0\<rparr>"
    by (simp add: initial_state_def)
  from item_failures_keep_the_loop_going
         [of initial_state rate_limited_item two_messages
             "plain_message ''ann@example.org'' ''see you soon, Bob''" "''see you soon, Bob''"]
    new [of "''m6''" "''see you soon, Bob''"] g
    get_email_body_plain [of "''ann@example.org''" "''see you soon, Bob''"]
  have b: "fst (process_item initial_state rate_limited_item) = Continue"
    and c: "process_messages initial_state (rate_limited_item # two_messages)
       = process_messages (snd (process_item initial_state rate_limited_item)) two_messages"
    and d: "stats (snd (process_item initial_state rate_limited_item))
       = (stats initial_state)\<lparr>skipped_rate_limit := skipped_rate_limit (stats initial_state) + 1\<rparr>"
    unfolding rate_limited_item_def by blast+
  have d1: "stats (snd (process_item initial_state rate_limited_item))
       = \<lparr>processed = 0, skipped_existing = 0, skipped_rate_limit = 1, errors = 0\<rparr>"
    unfolding d zero by simp
  have e: "gmail_get empty_body_item = Returns (plain_message ''ann@example.org'' [])"
    by (simp add: empty_body_item_def new_item_def)
  have body: "get_email_body (plain_message ''ann@example.org'' []) = Inr []"
    by (rule get_email_body_plain)
  from item_failures_keep_the_loop_going
         [of initial_state empty_body_item _ "plain_message ''ann@example.org'' []"]
    new [of "''m8''" "[]" Raises] e body
  have f: "process_item initial_state empty_body_item =
            (Continue,
             initial_state\<lparr>stats := (stats initial_state)\<lparr>errors := errors (stats initial_state) + 1\<rparr>,
                trace := trace initial_state
                           @ [(item_id empty_body_item, StoreSelect), (item_id empty_body_item, GmailGet)]\<rparr>)"
    unfolding empty_body_item_def by blast
  have f1: "fst (process_item initial_state empty_body_item) = Continue"
    unfolding f by simp
  have f2: "stats (snd (process_item initial_state empty_body_item))
       = \<lparr>processed = 0, skipped_existing = 0, skipped_rate_limit = 0, errors = 1\<rparr>"
    unfolding f zero by simp
  from item_failures_keep_the_loop_going [of initial_state failed_upsert_item]
  have h: "process_item initial_state (failed_upsert_item\<lparr>store_upsert := Raises\<rparr>)
       = process_item initial_state (failed_upsert_item\<lparr>store_upsert := Returns ()\<rparr>)"
    and i: "process_item initial_state (failed_upsert_item\<lparr>store_select := Raises\<rparr>)
       = process_item initial_state (failed_upsert_item\<lparr>store_select := Returns []\<rparr>)"
    by blast+
  from brk a b c d1 body f1 f2 h i show ?thesis by blast
qed

text \<open>
  C6, as the claim has it, says that a failed upsert is classified into the counters. For
  a message that is scored and whose upsert raises, the counters show one processed
  message and no error, as they do when the upsert succeeds.
\<close>

theorem upsert_failure_counted_counterexample:
  "store_upsert failed_upsert_item = Raises
   \<and> stats (snd (process_item initial_state failed_upsert_item))
       = \<lparr>processed = 1, skipped_existing = 0, skipped_rate_limit = 0, errors = 0\<rparr>
   \<and> process_item initial_state failed_upsert_item
       = process_item initial_state (failed_upsert_item\<lparr>store_upsert := Returns ()\<rparr>)"
  by (simp add: failed_upsert_item_def sample_defs eval_defs Let_def del: not_None_eq)

subsection \<open>The body of a message\<close>

lemma first_plain_part_none:
  "\<forall>q \<in> set ps. mimeType q \<noteq> ''text/plain'' \<or> data (part_body q) = None
     \<Longrightarrow> first_plain_part ps = None"
  by (induction ps) auto

lemma first_plain_part_found:
  assumes "\<forall>q \<in> set before. mimeType q \<noteq> ''text/plain'' \<or> data (part_body q) = None"
    and "mimeType p = ''text/plain''" and "data (part_body p) = Some d"
  shows "first_plain_part (before @ p # after) = Some (b64decode_utf8 d)"
  using assms by (induction before) auto

text \<open>
  C8, as the code has it. When the payload has parts, the body is the decoded data of the
  first part (of the payload itself, not of a part within a part) that is
  \<^verbatim>\<open>text/plain\<close> and has data, and the empty string when no part is such; the body of
  the payload is not looked at then. When the payload has no parts, the body is the
  decoded data of the payload's body, and the empty string when that body or its data is
  missing. Decoding gives the text when the data is base64 of UTF-8, and raises
  otherwise.
\<close>

theorem body_extraction:
  "(parts (payload msg) = Some (before @ p # after)
      \<and> (\<forall>q \<in> set before. mimeType q \<noteq> ''text/plain'' \<or> data (part_body q) = None)
      \<and> mimeType p = ''text/plain'' \<and> data (part_body p) = Some d
    \<longrightarrow> get_email_body msg = b64decode_utf8 d)
   \<and> (parts (payload msg) = Some ps
      \<and> (\<forall>q \<in> set ps. mimeType q \<noteq> ''text/plain'' \<or> data (part_body q) = None)
    \<longrightarrow> get_email_body msg = Inr [])
   \<and> (parts (payload msg) = None \<and> payload_body (payload msg) = Some b \<and> data b = Some d
    \<longrightarrow> get_email_body msg = b64decode_utf8 d)
   \<and> (parts (payload msg) = None
      \<and> (payload_body (payload msg) = None
          \<or> (\<exists>b. payload_body (payload msg) = Some b \<and> data b = None))
    \<longrightarrow> get_email_body msg = Inr [])
   \<and> b64decode_utf8 (Decodes s) = Inr s
   \<and> b64decode_utf8 Undecodable = Inl DecodeError"
proof -
  have a: "get_email_body msg = b64decode_utf8 d"
    if "parts (payload msg) = Some (before @ p # after)"
      and "\<forall>q \<in> set before. mimeType q \<noteq> ''text/plain'' \<or> data (part_body q) = None"
      and "mimeType p = ''text/plain''" and "data (part_body p) = Some d"
    using that(1) first_plain_part_found [OF that(2-4), of after]
    by (simp add: get_email_body_def)
  have b: "get_email_body msg = Inr []"
    if "parts (payload msg) = Some ps"
      and "\<forall>q \<in> set ps. mimeType q \<noteq> ''text/plain'' \<or> data (part_body q) = None"
    using that(1) first_plain_part_none [OF that(2)]
    by (simp add: get_email_body_def)
  have c: "get_email_body msg = b64decode_utf8 d"
    if "parts (payload msg) = None" and "payload_body (payload msg) = Some b" and "data b = Some d"
    using that by (simp add: get_email_body_def)
  have d: "get_email_body msg = Inr []"
    if "parts (payload msg) = None"
      and "payload_body (payload msg) = None
          \<or> (\<exists>b. payload_body (payload msg) = Some b \<and> data b = None)"
    using that by (auto simp: get_email_body_def)
  have e: "b64decode_utf8 (Decodes s) = Inr s" "b64decode_utf8 Undecodable = Inl DecodeError"
    by (simp_all add: b64decode_utf8_def)
  from a b c d e show ?thesis by blast
qed

theorem body_extraction_witness:
  "get_email_body (multipart_message [html_part, attached_part, plain_part ''hi'', plain_part ''bye''] None)
     = Inr ''hi''
   \<and> get_email_body (multipart_message [html_part, attached_part] (Some \<lparr>data = Some (Decodes ''hi'')\<rparr>))
     = Inr []
   \<and> get_email_body (bare_message (Some \<lparr>data = Some (Decodes ''hi'')\<rparr>)) = Inr ''hi''
   \<and> get_email_body (bare_message (Some \<lparr>data = None\<rparr>)) = Inr []
   \<and> get_email_body (bare_message None) = Inr []"
proof -
  have skip: "\<forall>q \<in> set [html_part, attached_part].
                mimeType q \<noteq> ''text/plain'' \<or> data (part_body q) = None"
    by (simp add: html_part_def attached_part_def)
  have found: "mimeType (plain_part ''hi'') = ''text/plain''"
    "data (part_body (plain_part ''hi'')) = Some (Decodes ''hi'')"
    by (simp_all add: plain_part_def)
  have p1: "parts (payload (multipart_message [html_part, attached_part, plain_part ''hi'', plain_part ''bye''] None))
              = Some ([html_part, attached_part] @ plain_part ''hi'' # [plain_part ''bye''])"
    by (simp add: multipart_message_def)
  have dec: "b64decode_utf8 (Decodes ''hi'') = Inr ''hi''"
    by (simp add: b64decode_utf8_def)
  from body_extraction
         [of "multipart_message [html_part, attached_part, plain_part ''hi'', plain_part ''bye''] None"
             "[html_part, attached_part]" "plain_part ''hi''" "[plain_part ''bye'']" "Decodes ''hi''"]
    p1 skip found
  have a: "get_email_body (multipart_message [html_part, attached_part, plain_part ''hi'', plain_part ''bye''] None)
     = Inr ''hi''"
    unfolding dec by blast
  have p2: "parts (payload (multipart_message [html_part, attached_part] (Some \<lparr>data = Some (Decodes ''hi'')\<rparr>)))
              = Some [html_part, attached_part]"
    by (simp add: multipart_message_def)
  from body_extraction
         [of "multipart_message [html_part, attached_part] (Some \<lparr>data = Some (Decodes ''hi'')\<rparr>)"
             _ _ _ _ "[html_part, attached_part]"]
    p2 skip
  have b: "get_email_body (multipart_message [html_part, attached_part] (Some \<lparr>data = Some (Decodes ''hi'')\<rparr>))
     = Inr []"
    by blast
  have p3: "parts (payload (bare_message x)) = None" "payload_body (payload (bare_message x)) = x"
    for x
    by (simp_all add: bare_message_def)
  from body_extraction
         [of "bare_message (Some \<lparr>data = Some (Decodes ''hi'')\<rparr>)" _ _ _ "Decodes ''hi''" _
             "\<lparr>data = Some (Decodes ''hi'')\<rparr>"]
    p3 [of "Some \<lparr>data = Some (Decodes ''hi'')\<rparr>"]
  have c: "get_email_body (bare_message (Some \<lparr>data = Some (Decodes ''hi'')\<rparr>)) = Inr ''hi''"
    unfolding dec by simp
  from body_extraction [of "bare_message (Some \<lparr>data = None\<rparr>)"]
    p3 [of "Some \<lparr>data = None\<rparr>"]
  have d: "get_email_body (bare_message (Some \<lparr>data = None\<rparr>)) = Inr []"
    by simp
  from body_extraction [of "bare_message None"] p3 [of None]
  have e: "get_email_body (bare_message None) = Inr []"
    by simp
  from a b c d e show ?thesis by blast
qed

text \<open>
  C8, as the claim has it, says that the result is a string for any message. A message
  without parts whose data does not decode (\<^verbatim>\<open>6Q==\<close>, the single byte E9, is base64
  but not UTF-8) makes \<^verbatim>\<open>get_email_body\<close> raise.
\<close>

theorem body_always_text_counterexample:
  "get_email_body (bare_message (Some \<lparr>data = Some Undecodable\<rparr>)) = Inl DecodeError"
  by (simp add: get_email_body_def bare_message_def b64decode_utf8_def)

end
